theory Spec2Isabelle
  imports Main "HOL-Library.Word" "HOL-Library.AList" "HOL-Library.Char_ord"
    "HOL-Library.List_Lexorder"
begin

section \<open>Data model\<close>

text \<open>
  The mutable versioned tree of the repository (MutableTree with its Set, Get, Remove,
  balance, SaveVersion, Rollback and GetVersioned) and the node pool of pool.go.

  A Go byte slice is either nil or a sequence of bytes: \<open>None\<close> is the nil slice and
  \<open>Some []\<close> the empty, non-nil slice. The source tests \<open>value == nil\<close> and
  \<open>newKey != nil\<close>, so the two are kept apart.
\<close>

type_synonym bytes = "string option"

datatype error =
    InvalidArgument
  | Internal
  | NotFound
  | VersionAlreadyExists
  | IO
  | NilPointer

text \<open>NodeKey: the version and the structural path (a big integer in the source).\<close>

datatype nodekey = NodeKey (nk_version: int) (nk_path: int)

text \<open>
  The Node struct. Its declaration is not among the source files; the fields are the ones
  that resetNode of pool.go and the node literals of the tree code assign. The scalar
  fields are the record \<open>ninfo\<close>, the two child pointers are the recursive arguments of
  the datatype (\<open>None\<close> is the nil pointer).

  Modelled from the spec: the widths of subtreeHeight and size are declared with the Node
  struct, which is missing; the spec gives height and size as integers
  (\<open>1 + max(left.height, right.height)\<close>, number of leaves), so both are \<open>int\<close>.
\<close>

record ninfo =
  key :: bytes
  value_n :: bytes
  hash :: bytes
  nodeKey :: "nodekey option"
  leftNodeKey :: "nodekey option"
  rightNodeKey :: "nodekey option"
  subtreeHeight :: int
  size_n :: int
  dirty :: bool
  poolId :: "64 word"

datatype node = Node (info: ninfo) (leftNode: "node option") (rightNode: "node option")

text \<open>
  Versions are Go int64 values: a sum is the 64-bit two's complement value of the exact
  sum, so that \<open>tree.version + 1\<close> at the largest int64 is the smallest one.
\<close>

definition int64 :: "int \<Rightarrow> int" where
  "int64 x = sint (word_of_int x :: 64 word)"

text \<open>
  Modelled from the spec: emptyNodeKey is a constant declared outside the source files;
  resetNode assigns it to the three node-key fields, which the tree code compares with
  nil, so it is the nil key.
\<close>

definition emptyNodeKey :: "nodekey option" where
  "emptyNodeKey = None"

text \<open>The zero value of the Node struct, \<open>&Node{}\<close>.\<close>

definition zeroNode :: node where
  "zeroNode = Node \<lparr> key = None, value_n = None, hash = None, nodeKey = None,
     leftNodeKey = None, rightNodeKey = None, subtreeHeight = 0, size_n = 0,
     dirty = False, poolId = 0 \<rparr> None None"

section \<open>Byte slices, fast nodes and the NodeDB\<close>

text \<open>bytes.Compare and bytes.Equal of the Go library: a nil slice compares as empty.\<close>

definition raw :: "bytes \<Rightarrow> string" where
  "raw b = (case b of None \<Rightarrow> [] | Some s \<Rightarrow> s)"

fun list_Compare :: "string \<Rightarrow> string \<Rightarrow> int" where
  "list_Compare [] [] = 0"
| "list_Compare [] (y # ys) = - 1"
| "list_Compare (x # xs) [] = 1"
| "list_Compare (x # xs) (y # ys) =
     (if (of_char x :: nat) < of_char y then - 1
      else if (of_char y :: nat) < of_char x then 1
      else list_Compare xs ys)"

definition bytes_Compare :: "bytes \<Rightarrow> bytes \<Rightarrow> int" where
  "bytes_Compare a b = list_Compare (raw a) (raw b)"

definition bytes_Equal :: "bytes \<Rightarrow> bytes \<Rightarrow> bool" where
  "bytes_Equal a b = (raw a = raw b)"

text \<open>fastnode.Node and fastnode.NewNode.\<close>

record fastnode =
  fn_key :: bytes
  fn_value :: bytes
  versionLastUpdatedAt :: int

definition fastnode_NewNode :: "bytes \<Rightarrow> bytes \<Rightarrow> int \<Rightarrow> fastnode" where
  "fastnode_NewNode k v ver = \<lparr> fn_key = k, fn_value = v, versionLastUpdatedAt = ver \<rparr>"

text \<open>
  Modelled from the spec: the nodeDB, which is not among the source files. The spec (4.6)
  gives it as the interface the tree consumes over an external backing store: lookups that
  answer or fail, and writes staged in a batch. The lookups are the store's answers (any
  function, an error included); the writes are appended to the log \<open>batch\<close> and fail
  when \<open>db_fail\<close> says so. latestVersion and opts.InitialVersion (a uint64) are the
  fields the tree code reads; db_IsFastCacheEnabled is the answer of
  ImmutableTree.IsFastCacheEnabled, which asks the nodeDB.
\<close>

datatype db_write =
    SaveNode node
  | SaveFastNode fastnode
  | DeleteFastNode string
  | SetFastStorageVersion
  | Commit

record nodeDB =
  db_GetNode :: "nodekey option \<Rightarrow> error + node"
  db_GetRoot :: "int \<Rightarrow> error + nodekey option"
  db_HasVersion :: "int \<Rightarrow> error + bool"
  db_GetFastNode :: "bytes \<Rightarrow> fastnode option"
  db_IsFastCacheEnabled :: "error + bool"
  latestVersion :: int
  InitialVersion :: "64 word"
  db_fail :: "db_write \<Rightarrow> error option"
  batch :: "db_write list"

definition db_write_op :: "nodeDB \<Rightarrow> db_write \<Rightarrow> nodeDB \<times> error option" where
  "db_write_op db w =
     (case db_fail db w of
        Some e \<Rightarrow> (db, Some e)
      | None \<Rightarrow> (db\<lparr> batch := batch db @ [w] \<rparr>, None))"

section \<open>Nodes\<close>

abbreviation height :: "node \<Rightarrow> int" where
  "height n \<equiv> subtreeHeight (info n)"

text \<open>
  Modelled from the spec: NewNode, isLeaf, getLeftNode, getRightNode, calcHeightAndSize,
  calcBalance and clone are methods of Node declared outside the source files.
  A leaf has height 0 and size 1. A child is the in-memory pointer when there is one and
  is otherwise materialised from the NodeDB by its key. Height is one more than the
  larger child height, size the sum of the child sizes, the balance factor the left height
  minus the right height. clone yields a transient copy (NodeKey and hash cleared) that
  keeps key, height, size and the child keys; the callers dereference the child pointers
  of the clone at once, so for a persisted node clone materialises both children.
\<close>

definition NewNode :: "bytes \<Rightarrow> bytes \<Rightarrow> node" where
  "NewNode k v = Node ((info zeroNode)\<lparr> key := k, value_n := v, subtreeHeight := 0, size_n := 1 \<rparr>)
     None None"

definition isLeaf :: "node \<Rightarrow> bool" where
  "isLeaf n = (height n = 0)"

definition getLeftNode :: "nodeDB \<Rightarrow> node \<Rightarrow> error + node" where
  "getLeftNode db n =
     (case leftNode n of Some l \<Rightarrow> Inr l | None \<Rightarrow> db_GetNode db (leftNodeKey (info n)))"

definition getRightNode :: "nodeDB \<Rightarrow> node \<Rightarrow> error + node" where
  "getRightNode db n =
     (case rightNode n of Some r \<Rightarrow> Inr r | None \<Rightarrow> db_GetNode db (rightNodeKey (info n)))"

definition calcHeightAndSize :: "nodeDB \<Rightarrow> node \<Rightarrow> error + node" where
  "calcHeightAndSize db n =
     (case getLeftNode db n of
        Inl e \<Rightarrow> Inl e
      | Inr l \<Rightarrow>
          (case getRightNode db n of
             Inl e \<Rightarrow> Inl e
           | Inr r \<Rightarrow>
               Inr (Node ((info n)\<lparr> subtreeHeight := max (height l) (height r) + 1,
                                       size_n := size_n (info l) + size_n (info r) \<rparr>)
                      (leftNode n) (rightNode n))))"

definition calcBalance :: "nodeDB \<Rightarrow> node \<Rightarrow> error + int" where
  "calcBalance db n =
     (case getLeftNode db n of
        Inl e \<Rightarrow> Inl e
      | Inr l \<Rightarrow>
          (case getRightNode db n of
             Inl e \<Rightarrow> Inl e
           | Inr r \<Rightarrow> Inr (height l - height r)))"

definition clone_info :: "ninfo \<Rightarrow> ninfo" where
  "clone_info i = (info zeroNode)\<lparr> key := key i, subtreeHeight := subtreeHeight i,
     size_n := size_n i, leftNodeKey := leftNodeKey i, rightNodeKey := rightNodeKey i \<rparr>"

definition clone :: "nodeDB \<Rightarrow> node \<Rightarrow> error + node" where
  "clone db n =
     (if nodeKey (info n) \<noteq> None then
        (case getLeftNode db n of
           Inl e \<Rightarrow> Inl e
         | Inr l \<Rightarrow>
             (case getRightNode db n of
                Inl e \<Rightarrow> Inl e
              | Inr r \<Rightarrow> Inr (Node (clone_info (info n)) (Some l) (Some r))))
      else Inr (Node (clone_info (info n)) (leftNode n) (rightNode n)))"

section \<open>ImmutableTree and MutableTree\<close>

text \<open>
  The nodeDB is one object that the MutableTree and every ImmutableTree made from it
  reach through a pointer. The trees hold the pointer (an address); the object itself is
  kept once, in the field \<open>ndb_obj\<close> of the MutableTree. \<open>tree.root\<close> and
  \<open>tree.version\<close> of the source are fields of the embedded working ImmutableTree.
\<close>

type_synonym ndb_ptr = nat

record immutable_tree =
  root :: "node option"
  it_ndb :: ndb_ptr
  version :: int
  it_skipFastStorageUpgrade :: bool

record mutable_tree =
  ImmutableTree :: immutable_tree
  lastSaved :: immutable_tree
  orphans :: "nodekey list"
  versions :: "int \<rightharpoonup> bool"
  allRootLoaded :: bool
  unsavedFastNodeAdditions :: "(string \<times> fastnode) list"
  unsavedFastNodeRemovals :: "(string \<times> unit) list"
  ndb :: ndb_ptr
  ndb_obj :: nodeDB
  skipFastStorageUpgrade :: bool

definition it_clone :: "immutable_tree \<Rightarrow> immutable_tree" where
  "it_clone t = \<lparr> root = root t, it_ndb = it_ndb t, version = version t,
     it_skipFastStorageUpgrade = it_skipFastStorageUpgrade t \<rparr>"

definition set_root :: "node option \<Rightarrow> mutable_tree \<Rightarrow> mutable_tree" where
  "set_root r t = t\<lparr> ImmutableTree := (ImmutableTree t)\<lparr> root := r \<rparr> \<rparr>"

abbreviation tree_root :: "mutable_tree \<Rightarrow> node option" where
  "tree_root t \<equiv> root (ImmutableTree t)"

abbreviation tree_version :: "mutable_tree \<Rightarrow> int" where
  "tree_version t \<equiv> version (ImmutableTree t)"

definition NewMutableTree :: "ndb_ptr \<Rightarrow> nodeDB \<Rightarrow> bool \<Rightarrow> mutable_tree" where
  "NewMutableTree p db skip =
     (let head = \<lparr> root = None, it_ndb = p, version = 0, it_skipFastStorageUpgrade = skip \<rparr>
      in \<lparr> ImmutableTree = head, lastSaved = it_clone head, orphans = [],
           versions = Map.empty, allRootLoaded = False,
           unsavedFastNodeAdditions = [], unsavedFastNodeRemovals = [],
           ndb = p, ndb_obj = db, skipFastStorageUpgrade = skip \<rparr>)"

definition addUnsavedAddition :: "bytes \<Rightarrow> fastnode \<Rightarrow> mutable_tree \<Rightarrow> mutable_tree" where
  "addUnsavedAddition k fnode t =
     t\<lparr> unsavedFastNodeRemovals := AList.delete (raw k) (unsavedFastNodeRemovals t),
        unsavedFastNodeAdditions := AList.update (raw k) fnode (unsavedFastNodeAdditions t) \<rparr>"

definition addUnsavedRemoval :: "bytes \<Rightarrow> mutable_tree \<Rightarrow> mutable_tree" where
  "addUnsavedRemoval k t =
     t\<lparr> unsavedFastNodeAdditions := AList.delete (raw k) (unsavedFastNodeAdditions t),
        unsavedFastNodeRemovals := AList.update (raw k) () (unsavedFastNodeRemovals t) \<rparr>"

subsection \<open>Reading\<close>

text \<open>
  Modelled from the spec: ImmutableTree.Get and Node.get are declared outside the source
  files; the spec gives ImmutableTree.Get as the traversal of the tree from the root: null
  for a null root, at an inner node left when the key is below the routing key and right
  otherwise, at a leaf the value when the keys are equal. The traversal follows children
  into the NodeDB, so it need not return: not returning is \<open>None\<close>.
\<close>

partial_function (option) node_get :: "nodeDB \<Rightarrow> node \<Rightarrow> bytes \<Rightarrow> (error + bytes) option" where
  "node_get db n k =
     (if isLeaf n then
        (if bytes_Equal (key (info n)) k then Some (Inr (value_n (info n))) else Some (Inr None))
      else if bytes_Compare k (key (info n)) < 0 then
        (case getLeftNode db n of Inl e \<Rightarrow> Some (Inl e) | Inr l \<Rightarrow> node_get db l k)
      else
        (case getRightNode db n of Inl e \<Rightarrow> Some (Inl e) | Inr r \<Rightarrow> node_get db r k))"

definition it_Get :: "nodeDB \<Rightarrow> immutable_tree \<Rightarrow> bytes \<Rightarrow> (error + bytes) option" where
  "it_Get db t k = (case root t of None \<Rightarrow> Some (Inr None) | Some n \<Rightarrow> node_get db n k)"

definition Get :: "mutable_tree \<Rightarrow> bytes \<Rightarrow> (error + bytes) option" where
  "Get t k =
     (if tree_root t = None then Some (Inr None)
      else if \<not> skipFastStorageUpgrade t then
        (case map_of (unsavedFastNodeAdditions t) (raw k) of
           Some fnode \<Rightarrow> Some (Inr (fn_value fnode))
         | None \<Rightarrow>
             (case map_of (unsavedFastNodeRemovals t) (raw k) of
                Some u \<Rightarrow> Some (Inr None)
              | None \<Rightarrow> it_Get (ndb_obj t) (ImmutableTree t) k))
      else it_Get (ndb_obj t) (ImmutableTree t) k)"

subsection \<open>Rotations and balance\<close>

text \<open>
  A method call on a nil node pointer dereferences it: the error \<open>NilPointer\<close> stands
  for that panic.
\<close>

definition set_leftNode :: "node option \<Rightarrow> node \<Rightarrow> node" where
  "set_leftNode l n = Node (info n) l (rightNode n)"

definition set_rightNode :: "node option \<Rightarrow> node \<Rightarrow> node" where
  "set_rightNode r n = Node (info n) (leftNode n) r"

definition rotateRight :: "nodeDB \<Rightarrow> node \<Rightarrow> error + node" where
  "rotateRight db node0 =
     (case clone db node0 of
        Inl e \<Rightarrow> Inl e
      | Inr node1 \<Rightarrow>
          (case leftNode node1 of
             None \<Rightarrow> Inl NilPointer
           | Some l \<Rightarrow>
               (case clone db l of
                  Inl e \<Rightarrow> Inl e
                | Inr newNode \<Rightarrow>
                    (case calcHeightAndSize db (set_leftNode (rightNode newNode) node1) of
                       Inl e \<Rightarrow> Inl e
                     | Inr node2 \<Rightarrow> calcHeightAndSize db (set_rightNode (Some node2) newNode)))))"

definition rotateLeft :: "nodeDB \<Rightarrow> node \<Rightarrow> error + node" where
  "rotateLeft db node0 =
     (case clone db node0 of
        Inl e \<Rightarrow> Inl e
      | Inr node1 \<Rightarrow>
          (case rightNode node1 of
             None \<Rightarrow> Inl NilPointer
           | Some r \<Rightarrow>
               (case clone db r of
                  Inl e \<Rightarrow> Inl e
                | Inr newNode \<Rightarrow>
                    (case calcHeightAndSize db (set_rightNode (leftNode newNode) node1) of
                       Inl e \<Rightarrow> Inl e
                     | Inr node2 \<Rightarrow> calcHeightAndSize db (set_leftNode (Some node2) newNode)))))"

definition balance_left :: "nodeDB \<Rightarrow> node \<Rightarrow> error + node" where
  "balance_left db node0 =
     (case leftNode node0 of
        None \<Rightarrow> Inl NilPointer
      | Some l \<Rightarrow>
          (case calcBalance db l of
             Inl e \<Rightarrow> Inl e
           | Inr lftBalance \<Rightarrow>
               if lftBalance \<ge> 0 then rotateRight db node0
               else
                 (case rotateLeft db l of
                    Inl e \<Rightarrow> Inl e
                  | Inr l' \<Rightarrow>
                      rotateRight db
                        (Node ((info node0)\<lparr> leftNodeKey := None \<rparr>) (Some l') (rightNode node0)))))"

definition balance_right :: "nodeDB \<Rightarrow> node \<Rightarrow> error + node" where
  "balance_right db node0 =
     (case getRightNode db node0 of
        Inl e \<Rightarrow> Inl e
      | Inr r \<Rightarrow>
          (case calcBalance db r of
             Inl e \<Rightarrow> Inl e
           | Inr rightBalance \<Rightarrow>
               if rightBalance \<le> 0 then rotateLeft db node0
               else
                 (case rotateRight db r of
                    Inl e \<Rightarrow> Inl e
                  | Inr r' \<Rightarrow>
                      rotateLeft db
                        (Node ((info node0)\<lparr> rightNodeKey := None \<rparr>) (leftNode node0) (Some r')))))"

definition balance :: "nodeDB \<Rightarrow> node \<Rightarrow> error + node" where
  "balance db node0 =
     (if nodeKey (info node0) \<noteq> None then Inl Internal
      else
        (case calcBalance db node0 of
           Inl e \<Rightarrow> Inl e
         | Inr b \<Rightarrow>
             if b > 1 then balance_left db node0
             else if b < - 1 then balance_right db node0
             else Inr node0))"

subsection \<open>Set\<close>

text \<open>
  recursiveSet and recursiveRemove take the tree and give it back: they append to orphans
  and record fast-index additions. They descend into children that clone materialised
  from the NodeDB, so they need not return.
\<close>

definition orphan :: "node \<Rightarrow> mutable_tree \<Rightarrow> mutable_tree" where
  "orphan n t =
     (case nodeKey (info n) of
        None \<Rightarrow> t
      | Some nk \<Rightarrow> t\<lparr> orphans := orphans t @ [nk] \<rparr>)"

definition set_leaf :: "mutable_tree \<Rightarrow> node \<Rightarrow> bytes \<Rightarrow> bytes
    \<Rightarrow> mutable_tree \<times> (error + node \<times> bool)" where
  "set_leaf t n k v =
     (let ver = int64 (tree_version t + 1);
          t1 = (if \<not> skipFastStorageUpgrade t
                then addUnsavedAddition k (fastnode_NewNode k v ver) t else t);
          c = bytes_Compare k (key (info n))
      in if c = - 1 then
           (t1, Inr (Node ((info zeroNode)\<lparr> key := key (info n), subtreeHeight := 1,
                             size_n := 2, nodeKey := None \<rparr>)
                       (Some (NewNode k v)) (Some n), False))
         else if c = 1 then
           (t1, Inr (Node ((info zeroNode)\<lparr> key := k, subtreeHeight := 1,
                             size_n := 2, nodeKey := None \<rparr>)
                       (Some n) (Some (NewNode k v)), False))
         else (orphan n t1, Inr (NewNode k v, True)))"

definition set_finish :: "node \<Rightarrow> bool \<Rightarrow> mutable_tree \<times> (error + node \<times> bool)
    \<Rightarrow> (mutable_tree \<times> (error + node \<times> bool)) option" where
  "set_finish node1 left res =
     (case res of
        (t', Inl e) \<Rightarrow> Some (t', Inl e)
      | (t', Inr (child, updated)) \<Rightarrow>
          (let node2 = (if left then set_leftNode (Some child) node1
                        else set_rightNode (Some child) node1)
           in if updated then Some (t', Inr (node2, updated))
              else
                (case calcHeightAndSize (ndb_obj t') node2 of
                   Inl e \<Rightarrow> Some (t', Inl e)
                 | Inr node3 \<Rightarrow>
                     (case balance (ndb_obj t') node3 of
                        Inl e \<Rightarrow> Some (t', Inl e)
                      | Inr newNode \<Rightarrow> Some (t', Inr (newNode, updated))))))"

partial_function (option) recursiveSet :: "mutable_tree \<Rightarrow> node \<Rightarrow> bytes \<Rightarrow> bytes
    \<Rightarrow> (mutable_tree \<times> (error + node \<times> bool)) option" where
  "recursiveSet t n k v =
     (if isLeaf n then Some (set_leaf t n k v)
      else
        (case clone (ndb_obj t) n of
           Inl e \<Rightarrow> Some (t, Inl e)
         | Inr node1 \<Rightarrow>
             if bytes_Compare k (key (info node1)) < 0 then
               (case leftNode node1 of
                  None \<Rightarrow> Some (t, Inl NilPointer)
                | Some l \<Rightarrow> Option.bind (recursiveSet t l k v) (set_finish node1 True))
             else
               (case rightNode node1 of
                  None \<Rightarrow> Some (t, Inl NilPointer)
                | Some r \<Rightarrow> Option.bind (recursiveSet t r k v) (set_finish node1 False))))"

text \<open>
  set assigns the results of recursiveSet to tree.root, updated and err at once: when
  recursiveSet fails its node result is nil, and that is what the root becomes.
\<close>

definition set_mt :: "mutable_tree \<Rightarrow> bytes \<Rightarrow> bytes \<Rightarrow> (mutable_tree \<times> (error + bool)) option" where
  "set_mt t k v =
     (if v = None then Some (t, Inl InvalidArgument)
      else
        (case tree_root t of
           None \<Rightarrow>
             (let t1 = (if \<not> skipFastStorageUpgrade t
                        then addUnsavedAddition k (fastnode_NewNode k v (int64 (tree_version t + 1))) t
                        else t)
              in Some (set_root (Some (NewNode k v)) t1, Inr False))
         | Some n \<Rightarrow>
             Option.bind (recursiveSet t n k v)
               (\<lambda>res. case res of
                   (t', Inl e) \<Rightarrow> Some (set_root None t', Inl e)
                 | (t', Inr (newSelf, updated)) \<Rightarrow> Some (set_root (Some newSelf) t', Inr updated))))"

definition Set_mt :: "mutable_tree \<Rightarrow> bytes \<Rightarrow> bytes \<Rightarrow> (mutable_tree \<times> (error + bool)) option" where
  "Set_mt t k v =
     Option.bind (set_mt t k v)
       (\<lambda>res. case res of
           (t', Inl e) \<Rightarrow> Some (t', Inl e)
         | (t', Inr updated) \<Rightarrow> Some (t', Inr updated))"

subsection \<open>Remove\<close>

type_synonym remove_result = "node option \<times> bytes \<times> bytes"

definition remove_rebalance :: "mutable_tree \<Rightarrow> node \<Rightarrow> bytes \<Rightarrow> bytes
    \<Rightarrow> mutable_tree \<times> (error + remove_result)" where
  "remove_rebalance t' node2 newKey val =
     (case calcHeightAndSize (ndb_obj t') node2 of
        Inl e \<Rightarrow> (t', Inl e)
      | Inr node3 \<Rightarrow>
          (case balance (ndb_obj t') node3 of
             Inl e \<Rightarrow> (t', Inl e)
           | Inr node4 \<Rightarrow> (t', Inr (Some node4, newKey, val))))"

definition remove_left :: "node \<Rightarrow> mutable_tree \<times> (error + remove_result)
    \<Rightarrow> (mutable_tree \<times> (error + remove_result)) option" where
  "remove_left node1 res =
     (case res of
        (t', Inl e) \<Rightarrow> Some (t', Inl e)
      | (t', Inr (newLeftNode, newKey, val)) \<Rightarrow>
          if val = None then Some (t', Inr (Some node1, None, val))
          else if newLeftNode = None then
            Some (t', Inr (rightNode node1, key (info node1), val))
          else Some (remove_rebalance t' (set_leftNode newLeftNode node1) newKey val))"

definition remove_right :: "node \<Rightarrow> mutable_tree \<times> (error + remove_result)
    \<Rightarrow> (mutable_tree \<times> (error + remove_result)) option" where
  "remove_right node1 res =
     (case res of
        (t', Inl e) \<Rightarrow> Some (t', Inl e)
      | (t', Inr (newRightNode, newKey, val)) \<Rightarrow>
          if val = None then Some (t', Inr (Some node1, None, val))
          else if newRightNode = None then Some (t', Inr (leftNode node1, None, val))
          else
            (let node2 = set_rightNode newRightNode node1;
                 node3 = (if newKey \<noteq> None
                          then Node ((info node2)\<lparr> key := newKey \<rparr>) (leftNode node2) (rightNode node2)
                          else node2)
             in Some (remove_rebalance t' node3 None val)))"

partial_function (option) recursiveRemove :: "mutable_tree \<Rightarrow> node \<Rightarrow> bytes
    \<Rightarrow> (mutable_tree \<times> (error + remove_result)) option" where
  "recursiveRemove t n k =
     (if isLeaf n then
        (if bytes_Equal k (key (info n))
         then Some (orphan n t, Inr (None, None, value_n (info n)))
         else Some (t, Inr (Some n, None, None)))
      else
        (case clone (ndb_obj t) n of
           Inl e \<Rightarrow> Some (t, Inl e)
         | Inr node1 \<Rightarrow>
             if bytes_Compare k (key (info node1)) < 0 then
               (case leftNode node1 of
                  None \<Rightarrow> Some (t, Inl NilPointer)
                | Some l \<Rightarrow> Option.bind (recursiveRemove t l k) (remove_left node1))
             else
               (case rightNode node1 of
                  None \<Rightarrow> Some (t, Inl NilPointer)
                | Some r \<Rightarrow> Option.bind (recursiveRemove t r k) (remove_right node1))))"

definition Remove :: "mutable_tree \<Rightarrow> bytes \<Rightarrow> (mutable_tree \<times> (error + bytes \<times> bool)) option" where
  "Remove t k =
     (case tree_root t of
        None \<Rightarrow> Some (t, Inr (None, False))
      | Some n \<Rightarrow>
          Option.bind (recursiveRemove t n k)
            (\<lambda>res. case res of
                (t', Inl e) \<Rightarrow> Some (t', Inl e)
              | (t', Inr (newRoot, newKey, val)) \<Rightarrow>
                  if val = None then Some (t', Inr (None, False))
                  else
                    (let t2 = (if \<not> skipFastStorageUpgrade t' then addUnsavedRemoval k t' else t')
                     in Some (set_root newRoot t2, Inr (val, True)))))"

declare node_get.simps [code]
declare recursiveSet.simps [code]
declare recursiveRemove.simps [code]

section \<open>Hashes\<close>

text \<open>
  Modelled from the spec: ImmutableTree.Hash and Node._hash are declared outside the source
  files. The hash of a node is the digest of its canonical encoding, computed lazily: a
  node that carries a hash answers with it, otherwise the digest is computed (for the
  version the tree is working towards). The tree with a null root has the null hash. The
  digest itself is the parameter \<open>H\<close>; it may fail.
\<close>

type_synonym digest = "node \<Rightarrow> int \<Rightarrow> error + string"

definition node_hash :: "digest \<Rightarrow> int \<Rightarrow> node \<Rightarrow> node \<times> error option" where
  "node_hash H ver n =
     (case hash (info n) of
        Some h \<Rightarrow> (n, None)
      | None \<Rightarrow>
          (case H n ver of
             Inl e \<Rightarrow> (n, Some e)
           | Inr d \<Rightarrow> (Node ((info n)\<lparr> hash := Some d \<rparr>) (leftNode n) (rightNode n), None)))"

definition it_Hash :: "digest \<Rightarrow> immutable_tree \<Rightarrow> error + bytes" where
  "it_Hash H t =
     (case root t of
        None \<Rightarrow> Inr None
      | Some n \<Rightarrow>
          (case hash (info n) of
             Some h \<Rightarrow> Inr (Some h)
           | None \<Rightarrow> (case H n (int64 (version t + 1)) of Inl e \<Rightarrow> Inl e | Inr d \<Rightarrow> Inr (Some d))))"

definition Hash :: "digest \<Rightarrow> mutable_tree \<Rightarrow> error + bytes" where
  "Hash H t = it_Hash H (lastSaved t)"

definition WorkingHash :: "digest \<Rightarrow> mutable_tree \<Rightarrow> error + bytes" where
  "WorkingHash H t = it_Hash H (ImmutableTree t)"

section \<open>Versions\<close>

text \<open>
  VersionExists memoises the answer of the NodeDB in tree.versions; the error of
  HasVersion is dropped by the source, and a failed lookup counts as absent.
\<close>

definition VersionExists :: "mutable_tree \<Rightarrow> int \<Rightarrow> mutable_tree \<times> bool" where
  "VersionExists t v =
     (if allRootLoaded t then (t, (case versions t v of Some b \<Rightarrow> b | None \<Rightarrow> False))
      else
        (case versions t v of
           Some has \<Rightarrow> (t, has)
         | None \<Rightarrow>
             (let has = (case db_HasVersion (ndb_obj t) v of Inr b \<Rightarrow> b | Inl e \<Rightarrow> False)
              in (t\<lparr> versions := (versions t)(v \<mapsto> has) \<rparr>, has))))"

definition GetImmutable :: "mutable_tree \<Rightarrow> int \<Rightarrow> mutable_tree \<times> (error + immutable_tree)" where
  "GetImmutable t v =
     (case db_GetRoot (ndb_obj t) v of
        Inl e \<Rightarrow> (t, Inl e)
      | Inr None \<Rightarrow> (t, Inl NotFound)
      | Inr (Some rootNodeKey) \<Rightarrow>
          (let t1 = t\<lparr> versions := (versions t)(v \<mapsto> True) \<rparr>
           in if nk_version rootNodeKey \<noteq> 0 then
                (case db_GetNode (ndb_obj t) (Some rootNodeKey) of
                   Inl e \<Rightarrow> (t1, Inl e)
                 | Inr n \<Rightarrow>
                     (t1, Inr \<lparr> root = Some n, it_ndb = ndb t, version = v,
                               it_skipFastStorageUpgrade = skipFastStorageUpgrade t \<rparr>))
              else
                (t1, Inr \<lparr> root = None, it_ndb = ndb t, version = v,
                          it_skipFastStorageUpgrade = skipFastStorageUpgrade t \<rparr>)))"

text \<open>
  The first part of GetVersioned, for a version that exists: \<open>Some r\<close> when the fast
  index decides the call (or IsFastCacheEnabled fails) and GetVersioned returns \<open>r\<close>
  at once, \<open>None\<close> when the call goes on to load the snapshot. The error of
  GetFastNode is dropped by the source.
\<close>

definition fast_lookup :: "mutable_tree \<Rightarrow> bytes \<Rightarrow> int \<Rightarrow> (error + bytes) option" where
  "fast_lookup t k v =
     (if \<not> skipFastStorageUpgrade t then
        (case db_IsFastCacheEnabled (ndb_obj t) of
           Inl e \<Rightarrow> Some (Inl e)
         | Inr isFastCacheEnabled \<Rightarrow>
             if isFastCacheEnabled then
               (case db_GetFastNode (ndb_obj t) k of
                  None \<Rightarrow> if v = latestVersion (ndb_obj t) then Some (Inr None) else None
                | Some fnode \<Rightarrow>
                    if versionLastUpdatedAt fnode \<le> v then Some (Inr (fn_value fnode)) else None)
             else None)
      else None)"

definition GetVersioned :: "mutable_tree \<Rightarrow> bytes \<Rightarrow> int \<Rightarrow> (mutable_tree \<times> (error + bytes)) option" where
  "GetVersioned t k v =
     (case VersionExists t v of
        (t1, exists) \<Rightarrow>
          if exists then
            (case fast_lookup t1 k v of
               Some r \<Rightarrow> Some (t1, r)
             | None \<Rightarrow>
                 (case GetImmutable t1 v of
                    (t2, Inl e) \<Rightarrow> Some (t2, Inr None)
                  | (t2, Inr it) \<Rightarrow>
                      (case it_Get (ndb_obj t2) it k of
                         None \<Rightarrow> None
                       | Some r \<Rightarrow> Some (t2, r))))
          else Some (t1, Inr None))"


section \<open>SaveVersion\<close>

text \<open>
  recursiveAssignKey and recursiveSave change the nodes in place; here each returns the
  node as it leaves it, with the error if there is one. The NodeKey that
  recursiveAssignKey returns is the \<open>nodeKey\<close> of the node returned.
\<close>

definition child_key :: "int \<Rightarrow> node \<Rightarrow> nodekey option \<Rightarrow> nodekey option" where
  "child_key ver child old =
     (case nodeKey (info child) of
        None \<Rightarrow> old
      | Some k \<Rightarrow> if nk_version k < ver then Some k else old)"

fun recursiveAssignKey :: "digest \<Rightarrow> int \<Rightarrow> node \<Rightarrow> int \<Rightarrow> node \<times> error option" where
  "recursiveAssignKey H ver (Node i l r) path =
     (case nodeKey i of
        Some nk \<Rightarrow> (Node i l r, None)
      | None \<Rightarrow>
          (let i1 = i\<lparr> nodeKey := Some (NodeKey ver path) \<rparr>
           in case (case l of
                      None \<Rightarrow> (None, None)
                    | Some ln \<Rightarrow>
                        (case recursiveAssignKey H ver ln (push_bit 1 path) of
                           (ln', err) \<Rightarrow> (Some ln', err))) of
                (l', Some e) \<Rightarrow> (Node i1 l' r, Some e)
              | (l', None) \<Rightarrow>
                  (let i2 = (case l' of
                               None \<Rightarrow> i1
                             | Some ln' \<Rightarrow> i1\<lparr> leftNodeKey := child_key ver ln' (leftNodeKey i1) \<rparr>)
                   in case (case r of
                              None \<Rightarrow> (None, None)
                            | Some rn \<Rightarrow>
                                (case recursiveAssignKey H ver rn (or (push_bit 1 path) 1) of
                                   (rn', err) \<Rightarrow> (Some rn', err))) of
                        (r', Some e) \<Rightarrow> (Node i2 l' r', Some e)
                      | (r', None) \<Rightarrow>
                          (let i3 = (case r' of
                                       None \<Rightarrow> i2
                                     | Some rn' \<Rightarrow>
                                         i2\<lparr> rightNodeKey := child_key ver rn' (rightNodeKey i2) \<rparr>)
                           in node_hash H ver (Node i3 l' r')))))"

fun recursiveSave :: "int \<Rightarrow> nodeDB \<Rightarrow> node \<Rightarrow> node \<times> nodeDB \<times> error option" where
  "recursiveSave ver db (Node i l r) =
     (case nodeKey i of
        None \<Rightarrow> (Node i l r, db, Some NilPointer)
      | Some nk \<Rightarrow>
          if nk_version nk < ver then (Node i l r, db, None)
          else
            (case db_write_op db (SaveNode (Node i l r)) of
               (db1, Some e) \<Rightarrow> (Node i l r, db1, Some e)
             | (db1, None) \<Rightarrow>
                 (case (case l of
                          None \<Rightarrow> (None, db1, None)
                        | Some ln \<Rightarrow>
                            (case recursiveSave ver db1 ln of
                               (ln', db2, Some e) \<Rightarrow> (Some ln', db2, Some e)
                             | (ln', db2, None) \<Rightarrow> (None, db2, None))) of
                    (l', db2, Some e) \<Rightarrow> (Node i l' r, db2, Some e)
                  | (l', db2, None) \<Rightarrow>
                      (case (case r of
                               None \<Rightarrow> (None, db2, None)
                             | Some rn \<Rightarrow>
                                 (case recursiveSave ver db2 rn of
                                    (rn', db3, Some e) \<Rightarrow> (Some rn', db3, Some e)
                                  | (rn', db3, None) \<Rightarrow> (None, db3, None))) of
                         (r', db3, err) \<Rightarrow> (Node i l' r', db3, err)))))"

definition saveNewNodes :: "digest \<Rightarrow> mutable_tree \<Rightarrow> mutable_tree \<times> error option" where
  "saveNewNodes H t =
     (let ver = int64 (tree_version t + 1)
      in case tree_root t of
           None \<Rightarrow> (t, Some NilPointer)
         | Some n \<Rightarrow>
             (case recursiveAssignKey H ver n 1 of
                (n1, Some e) \<Rightarrow> (set_root (Some n1) t, Some e)
              | (n1, None) \<Rightarrow>
                  (case recursiveSave ver (ndb_obj t) n1 of
                     (n2, db', err) \<Rightarrow> ((set_root (Some n2) t)\<lparr> ndb_obj := db' \<rparr>, err))))"

text \<open>The writes of a list of operations, one after the other, up to the first that fails.\<close>

fun db_write_all :: "nodeDB \<Rightarrow> db_write list \<Rightarrow> nodeDB \<times> error option" where
  "db_write_all db [] = (db, None)"
| "db_write_all db (w # ws) =
     (case db_write_op db w of
        (db1, Some e) \<Rightarrow> (db1, Some e)
      | (db1, None) \<Rightarrow> db_write_all db1 ws)"

definition saveFastNodeAdditions :: "mutable_tree \<Rightarrow> mutable_tree \<times> error option" where
  "saveFastNodeAdditions t =
     (case db_write_all (ndb_obj t)
             (map (\<lambda>kv. SaveFastNode (snd kv)) (sort_key fst (unsavedFastNodeAdditions t))) of
        (db', err) \<Rightarrow> (t\<lparr> ndb_obj := db' \<rparr>, err))"

definition saveFastNodeRemovals :: "mutable_tree \<Rightarrow> mutable_tree \<times> error option" where
  "saveFastNodeRemovals t =
     (case db_write_all (ndb_obj t)
             (map DeleteFastNode (sort (map fst (unsavedFastNodeRemovals t)))) of
        (db', err) \<Rightarrow> (t\<lparr> ndb_obj := db' \<rparr>, err))"

definition db_step :: "db_write \<Rightarrow> mutable_tree \<Rightarrow> mutable_tree \<times> error option" where
  "db_step w t = (case db_write_op (ndb_obj t) w of (db', err) \<Rightarrow> (t\<lparr> ndb_obj := db' \<rparr>, err))"

definition saveFastNodeVersion :: "mutable_tree \<Rightarrow> mutable_tree \<times> error option" where
  "saveFastNodeVersion t =
     (case saveFastNodeAdditions t of
        (t1, Some e) \<Rightarrow> (t1, Some e)
      | (t1, None) \<Rightarrow>
          (case saveFastNodeRemovals t1 of
             (t2, Some e) \<Rightarrow> (t2, Some e)
           | (t2, None) \<Rightarrow> db_step SetFastStorageVersion t2))"

text \<open>
  SaveVersion returns the hash, the version and the error. The target version is the
  working version plus one, or opts.InitialVersion (a uint64 converted to int64) on the
  first save.
\<close>

definition target_version :: "mutable_tree \<Rightarrow> int" where
  "target_version t =
     (let ver = int64 (tree_version t + 1)
      in if ver = 1 \<and> InitialVersion (ndb_obj t) > 0
         then sint (InitialVersion (ndb_obj t))
         else ver)"

definition publish :: "int \<Rightarrow> node option \<Rightarrow> mutable_tree \<Rightarrow> mutable_tree" where
  "publish ver r t =
     (let it = it_clone ((ImmutableTree t)\<lparr> version := ver, root := r \<rparr>)
      in t\<lparr> ImmutableTree := it, lastSaved := it_clone it, orphans := [] \<rparr>)"

text \<open>
  The root that the backing store holds for a version that exists: SaveVersion reads the
  root NodeKey, dereferences it (a nil key is a nil dereference) and loads the node unless
  the version of the key is 0, which stands for the empty tree.
\<close>

definition load_root :: "nodeDB \<Rightarrow> int \<Rightarrow> error + node option" where
  "load_root db ver =
     (case db_GetRoot db ver of
        Inl e \<Rightarrow> Inl e
      | Inr None \<Rightarrow> Inl NilPointer
      | Inr (Some existingNodeKey) \<Rightarrow>
          if nk_version existingNodeKey \<noteq> 0
          then (case db_GetNode db (Some existingNodeKey) of
                  Inl e \<Rightarrow> Inl e
                | Inr n \<Rightarrow> Inr (Some n))
          else Inr None)"

definition save_existing :: "digest \<Rightarrow> mutable_tree \<Rightarrow> int
    \<Rightarrow> mutable_tree \<times> bytes \<times> int \<times> error option" where
  "save_existing H t ver =
     (case load_root (ndb_obj t) ver of
        Inl e \<Rightarrow> (t, None, ver, Some e)
      | Inr existingRoot \<Rightarrow>
          (case WorkingHash H t of
             Inl e \<Rightarrow> (t, None, ver, Some e)
           | Inr newHash \<Rightarrow>
               if (existingRoot = None \<and> tree_root t = None)
                  \<or> (case existingRoot of
                        None \<Rightarrow> False
                      | Some e \<Rightarrow> bytes_Equal (hash (info e)) newHash)
               then (publish ver existingRoot t, newHash, ver, None)
               else (t, None, ver, Some VersionAlreadyExists)))"

definition save_new :: "digest \<Rightarrow> mutable_tree \<Rightarrow> int
    \<Rightarrow> mutable_tree \<times> bytes \<times> int \<times> error option" where
  "save_new H t ver =
     (case (if tree_root t \<noteq> None then saveNewNodes H t else (t, None)) of
        (t1, Some e) \<Rightarrow> (t1, None, 0, Some e)
      | (t1, None) \<Rightarrow>
          (case (if \<not> skipFastStorageUpgrade t1 then saveFastNodeVersion t1 else (t1, None)) of
             (t2, Some e) \<Rightarrow> (t2, None, ver, Some e)
           | (t2, None) \<Rightarrow>
               (case db_step Commit t2 of
                  (t3, Some e) \<Rightarrow> (t3, None, ver, Some e)
                | (t3, None) \<Rightarrow>
                    (let t4 = publish ver (tree_root t3)
                                (t3\<lparr> versions := (versions t3)(ver \<mapsto> True) \<rparr>);
                         t5 = (if \<not> skipFastStorageUpgrade t4
                               then t4\<lparr> unsavedFastNodeAdditions := [],
                                       unsavedFastNodeRemovals := [] \<rparr>
                               else t4)
                     in case Hash H t5 of
                          Inl e \<Rightarrow> (t5, None, ver, Some e)
                        | Inr h \<Rightarrow> (t5, h, ver, None)))))"

definition SaveVersion :: "digest \<Rightarrow> mutable_tree \<Rightarrow> mutable_tree \<times> bytes \<times> int \<times> error option" where
  "SaveVersion H t =
     (case VersionExists t (target_version t) of
        (t1, exists) \<Rightarrow>
          if exists then save_existing H t1 (target_version t)
          else save_new H t1 (target_version t))"

text \<open>
  The nodes that recursiveSave writes, in the order of the writes: a node with a NodeKey
  whose version is not below the new version, then those of its left and of its right
  in-memory child. \<open>reused_below\<close>: every NodeKey met on the way down from the node
  (a keyed node ends the descent) has a version below the new version.
\<close>

fun new_nodes :: "int \<Rightarrow> node \<Rightarrow> node list" where
  "new_nodes ver (Node i l r) =
     (case nodeKey i of
        None \<Rightarrow> []
      | Some nk \<Rightarrow>
          if nk_version nk < ver then []
          else Node i l r
               # (case l of None \<Rightarrow> [] | Some ln \<Rightarrow> new_nodes ver ln)
               @ (case r of None \<Rightarrow> [] | Some rn \<Rightarrow> new_nodes ver rn))"

fun reused_below :: "int \<Rightarrow> node \<Rightarrow> bool" where
  "reused_below ver (Node i l r) =
     (case nodeKey i of
        Some nk \<Rightarrow> nk_version nk < ver
      | None \<Rightarrow>
          (case l of None \<Rightarrow> True | Some ln \<Rightarrow> reused_below ver ln)
          \<and> (case r of None \<Rightarrow> True | Some rn \<Rightarrow> reused_below ver rn))"

text \<open>
  The condition of the spec for the idempotent save: the existing root and the working
  root are both null, or both are there and the hash of the existing root is the working
  hash.
\<close>

definition same_tree :: "node option \<Rightarrow> node option \<Rightarrow> bytes \<Rightarrow> bool" where
  "same_tree existingRoot workingRoot newHash =
     (case existingRoot of
        None \<Rightarrow> workingRoot = None
      | Some e \<Rightarrow> workingRoot \<noteq> None \<and> bytes_Equal (hash (info e)) newHash)"

text \<open>The nodes among the writes of a batch.\<close>

fun node_writes :: "db_write list \<Rightarrow> node list" where
  "node_writes [] = []"
| "node_writes (SaveNode n # ws) = n # node_writes ws"
| "node_writes (w # ws) = node_writes ws"


definition store_ok :: "nodeDB \<Rightarrow> bool" where
  "store_ok db =
     (0 \<le> sint (InitialVersion db) \<and> sint (InitialVersion db) < 2 ^ 63 - 1
      \<and> (\<forall>k n. db_GetNode db (Some k) = Inr n
             \<longrightarrow> nodeKey (info n) = Some k \<and> hash (info n) \<noteq> None)
      \<and> (\<forall>v k. db_GetRoot db v = Inr (Some k) \<longrightarrow> nk_version k \<le> v))"



text \<open>Two stores that differ at most in their pending write batch.\<close>

definition same_store :: "nodeDB \<Rightarrow> nodeDB \<Rightarrow> bool" where
  "same_store db db' = (\<exists>b. db' = db\<lparr> batch := b \<rparr>)"


section \<open>The node pool (pool.go)\<close>

text \<open>
  NodePool: the counter poolId and the sync.Pool of recycled nodes. A sync.Pool hands
  back some node that was Put before, or a new \<open>&Node{}\<close> when it holds none; the
  pool is the list of the nodes it holds and Get takes the first. The byte pools, the
  free channel, nodes and poolSize are not touched by Get, Put or resetNode.
\<close>

record NodePool =
  syncPool :: "node list"
  np_poolId :: "64 word"

definition NewNodePool :: NodePool where
  "NewNodePool = \<lparr> syncPool = [], np_poolId = 0 \<rparr>"

definition set_poolId :: "64 word \<Rightarrow> node \<Rightarrow> node" where
  "set_poolId p n = Node ((info n)\<lparr> poolId := p \<rparr>) (leftNode n) (rightNode n)"

definition syncPool_Get :: "node list \<Rightarrow> node \<times> node list" where
  "syncPool_Get pool = (case pool of [] \<Rightarrow> (zeroNode, []) | n # rest \<Rightarrow> (n, rest))"

definition np_Get :: "NodePool \<Rightarrow> node \<times> NodePool" where
  "np_Get np =
     (let pid = (if np_poolId np = - 1 then 1 else np_poolId np + 1);
          (n, rest) = syncPool_Get (syncPool np)
      in (set_poolId pid n, np\<lparr> syncPool := rest, np_poolId := pid \<rparr>))"

definition resetNode :: "node \<Rightarrow> node" where
  "resetNode n =
     Node ((info n)\<lparr> leftNodeKey := emptyNodeKey, rightNodeKey := emptyNodeKey,
                     nodeKey := emptyNodeKey, hash := None, key := None, value_n := None,
                     subtreeHeight := 0, size_n := 0, dirty := False \<rparr>) None None"

definition np_Put :: "NodePool \<Rightarrow> node \<Rightarrow> NodePool" where
  "np_Put np n = np\<lparr> syncPool := set_poolId 0 (resetNode n) # syncPool np \<rparr>"

section \<open>Well-formed trees\<close>

text \<open>
  The nodes under a node are the ones that getLeftNode and getRightNode reach, in memory
  or through the NodeDB. \<open>wf_node\<close>: every inner node under the node has both
  children, and a transient inner node (no NodeKey) holds them in memory, as the nodes
  that recursiveSet, clone and the rotations build do. \<open>has_key\<close>: some leaf under
  the node carries the key. \<open>reach\<close>: the nodes under a node.
\<close>

inductive wf_node :: "nodeDB \<Rightarrow> node \<Rightarrow> bool" for db :: nodeDB where
  wf_leaf: "isLeaf n \<Longrightarrow> wf_node db n"
| wf_inner: "\<not> isLeaf n \<Longrightarrow> getLeftNode db n = Inr l \<Longrightarrow> getRightNode db n = Inr r
     \<Longrightarrow> (nodeKey (info n) = None \<longrightarrow> leftNode n \<noteq> None \<and> rightNode n \<noteq> None)
     \<Longrightarrow> wf_node db l \<Longrightarrow> wf_node db r \<Longrightarrow> wf_node db n"

inductive has_key :: "nodeDB \<Rightarrow> node \<Rightarrow> bytes \<Rightarrow> bool" for db :: nodeDB where
  has_key_leaf: "isLeaf n \<Longrightarrow> bytes_Equal k (key (info n)) \<Longrightarrow> has_key db n k"
| has_key_left: "\<not> isLeaf n \<Longrightarrow> getLeftNode db n = Inr l \<Longrightarrow> has_key db l k
     \<Longrightarrow> has_key db n k"
| has_key_right: "\<not> isLeaf n \<Longrightarrow> getRightNode db n = Inr r \<Longrightarrow> has_key db r k
     \<Longrightarrow> has_key db n k"


text \<open>
  The AVL condition of the spec on stored heights: a leaf has height 0, an inner node has
  height one more than the larger child height, and its child heights differ by at most 1.
\<close>

inductive avl :: "nodeDB \<Rightarrow> node \<Rightarrow> bool" for db :: nodeDB where
  avl_leaf: "isLeaf n \<Longrightarrow> avl db n"
| avl_inner: "\<not> isLeaf n \<Longrightarrow> getLeftNode db n = Inr l \<Longrightarrow> getRightNode db n = Inr r
     \<Longrightarrow> (nodeKey (info n) = None \<longrightarrow> leftNode n \<noteq> None \<and> rightNode n \<noteq> None)
     \<Longrightarrow> avl db l \<Longrightarrow> avl db r
     \<Longrightarrow> height n = max (height l) (height r) + 1
     \<Longrightarrow> \<bar>height l - height r\<bar> \<le> 1 \<Longrightarrow> avl db n"


definition wf_tree :: "mutable_tree \<Rightarrow> bool" where
  "wf_tree t = (case tree_root t of None \<Rightarrow> True | Some n \<Rightarrow> wf_node (ndb_obj t) n)"

definition avl_tree :: "mutable_tree \<Rightarrow> bool" where
  "avl_tree t = (case tree_root t of None \<Rightarrow> True | Some n \<Rightarrow> avl (ndb_obj t) n)"

definition tree_has_key :: "mutable_tree \<Rightarrow> bytes \<Rightarrow> bool" where
  "tree_has_key t k = (case tree_root t of None \<Rightarrow> False | Some n \<Rightarrow> has_key (ndb_obj t) n k)"




section \<open>Trees made through the operations\<close>

text \<open>
  The trees that the operations of the source produce from a new tree: NewMutableTree, then
  any of Set, Remove, SaveVersion, Rollback and the version lookups, each taken when it
  returns. \<open>fast_inv\<close> is what holds of all of them: with the fast index skipped
  nothing writes the unsaved maps. \<open>after_Set\<close> and \<open>after_SaveVersion\<close> name the
  tree a call leaves behind.
\<close>

definition fast_fields :: "mutable_tree \<Rightarrow> bool \<times> (string \<times> fastnode) list \<times> (string \<times> unit) list" where
  "fast_fields t = (skipFastStorageUpgrade t, unsavedFastNodeAdditions t, unsavedFastNodeRemovals t)"

definition fast_inv :: "mutable_tree \<Rightarrow> bool" where
  "fast_inv t = (skipFastStorageUpgrade t
     \<longrightarrow> unsavedFastNodeAdditions t = [] \<and> unsavedFastNodeRemovals t = [])"


definition after_Set :: "mutable_tree \<Rightarrow> bytes \<Rightarrow> bytes \<Rightarrow> mutable_tree" where
  "after_Set t k v = (case Set_mt t k v of None \<Rightarrow> t | Some (t', res) \<Rightarrow> t')"

definition after_SaveVersion :: "digest \<Rightarrow> mutable_tree \<Rightarrow> mutable_tree" where
  "after_SaveVersion H t = fst (SaveVersion H t)"

section \<open>Example inputs\<close>

text \<open>
  A NodeDB that holds nothing and never fails a write, the fresh tree over it, and a
  four-leaf transient tree with leaves a, b, c, d and routing keys b, c, d.
\<close>

definition ex_db :: nodeDB where
  "ex_db = \<lparr> db_GetNode = (\<lambda>k. Inl NotFound), db_GetRoot = (\<lambda>v. Inr None),
     db_HasVersion = (\<lambda>v. Inr False), db_GetFastNode = (\<lambda>k. None),
     db_IsFastCacheEnabled = Inr False, latestVersion = 0, InitialVersion = 0,
     db_fail = (\<lambda>w. None), batch = [] \<rparr>"

definition ex_empty :: mutable_tree where
  "ex_empty = NewMutableTree 0 ex_db False"

definition ex_leaf :: "string \<Rightarrow> string \<Rightarrow> node" where
  "ex_leaf k v = NewNode (Some k) (Some v)"

definition ex_inner :: "string \<Rightarrow> int \<Rightarrow> node \<Rightarrow> node \<Rightarrow> node" where
  "ex_inner k h l r =
     Node ((info zeroNode)\<lparr> key := Some k, subtreeHeight := h,
             size_n := size_n (info l) + size_n (info r) \<rparr>) (Some l) (Some r)"

definition ex_left2 :: node where
  "ex_left2 = ex_inner ''b'' 1 (ex_leaf ''a'' ''1'') (ex_leaf ''b'' ''2'')"

definition ex_right2 :: node where
  "ex_right2 = ex_inner ''d'' 1 (ex_leaf ''c'' ''3'') (ex_leaf ''d'' ''4'')"

definition ex_root4 :: node where
  "ex_root4 = ex_inner ''c'' 2 ex_left2 ex_right2"

definition ex_tree4 :: mutable_tree where
  "ex_tree4 = set_root (Some ex_root4) ex_empty"

text \<open>
  A NodeDB in which every version is said to exist and every root lookup fails, and a
  tree at version 1 with unsaved changes over a saved two-leaf tree.
\<close>

definition ex_db_fail :: nodeDB where
  "ex_db_fail = ex_db\<lparr> db_HasVersion := (\<lambda>v. Inr True), db_GetRoot := (\<lambda>v. Inl IO) \<rparr>"

definition ex_tree_fail :: mutable_tree where
  "ex_tree_fail = NewMutableTree 0 ex_db_fail False"

definition ex_saved :: mutable_tree where
  "ex_saved = ex_tree4\<lparr> lastSaved := \<lparr> root = Some ex_left2, it_ndb = 0, version = 1,
       it_skipFastStorageUpgrade = False \<rparr>,
     ImmutableTree := \<lparr> root = Some ex_root4, it_ndb = 0, version = 1,
       it_skipFastStorageUpgrade = False \<rparr>,
     orphans := [NodeKey 1 2],
     unsavedFastNodeAdditions := [(''c'', fastnode_NewNode (Some ''c'') (Some ''3'') 2)] \<rparr>"

text \<open>
  A transient inner node over a new leaf a and a leaf b reused from version 1, a digest
  that always answers, and the tree with that node as its root at version 1.
\<close>

definition ex_H :: digest where
  "ex_H = (\<lambda>n ver. Inr ''h'')"

definition ex_reused :: node where
  "ex_reused = Node ((info (NewNode (Some ''b'') (Some ''2'')))\<lparr> nodeKey := Some (NodeKey 1 3),
     hash := Some ''hb'' \<rparr>) None None"

definition ex_mixed :: node where
  "ex_mixed = ex_inner ''b'' 1 (ex_leaf ''a'' ''1'') ex_reused"

definition ex_tree_mixed :: mutable_tree where
  "ex_tree_mixed = ex_empty\<lparr> ImmutableTree := \<lparr> root = Some ex_mixed, it_ndb = 0, version = 1,
     it_skipFastStorageUpgrade = False \<rparr> \<rparr>"

definition ex_leaf_keyed :: node where
  "ex_leaf_keyed = Node ((info (ex_leaf ''a'' ''1''))\<lparr> nodeKey := Some (NodeKey 2 2),
     hash := Some ''h'' \<rparr>) None None"

definition ex_mixed_keyed :: node where
  "ex_mixed_keyed = Node ((info ex_mixed)\<lparr> nodeKey := Some (NodeKey 2 1), hash := Some ''h'',
     rightNodeKey := Some (NodeKey 1 3) \<rparr>) (Some ex_leaf_keyed) (Some ex_reused)"






text \<open>
  A digest that reads the key and the value of the node; a session that sets a key, saves
  version 1 and sets another key, with the fast index skipped; and a store whose
  InitialVersion is 2^63, with the tree after one Set and one SaveVersion over it.
\<close>

definition ex_Hk :: digest where
  "ex_Hk = (\<lambda>n ver. Inr (''#'' @ raw (key (info n)) @ ''='' @ raw (value_n (info n))))"





definition ex_s1 :: mutable_tree where
  "ex_s1 = after_Set (NewMutableTree 0 ex_db True) (Some ''a'') (Some ''1'')"


text \<open>
  A store with the option InitialVersion set to 10, and the new tree over it after one Set
  and after the SaveVersion that follows.
\<close>

definition ex_db_init :: nodeDB where
  "ex_db_init = ex_db\<lparr> InitialVersion := 10 \<rparr>"

definition ex_init_set :: mutable_tree where
  "ex_init_set = after_Set (NewMutableTree 0 ex_db_init True) (Some ''a'') (Some ''1'')"

definition ex_init_saved :: mutable_tree where
  "ex_init_saved = after_SaveVersion ex_Hk ex_init_set"



section \<open>Versions as int64\<close>

lemma int64_id [simp]: "- (2 ^ 63) \<le> x \<Longrightarrow> x < 2 ^ 63 \<Longrightarrow> int64 x = x"
proof -
  assume a: "- (2 ^ 63) \<le> x" "x < 2 ^ 63"
  have "signed_take_bit 63 x = x"
    using a by (intro signed_take_bit_int_eq_self) simp_all
  then show ?thesis by (simp add: int64_def signed_of_int)
qed

lemma int64_max: "int64 (2 ^ 63 - 1 + 1) = - (2 ^ 63)"
  by (simp add: int64_def)

section \<open>Nodes in memory\<close>

lemma getLeftNode_mem [simp]: "getLeftNode db (Node i (Some l) r) = Inr l"
  by (simp add: getLeftNode_def)

lemma getRightNode_mem [simp]: "getRightNode db (Node i l (Some r)) = Inr r"
  by (simp add: getRightNode_def)

lemma clone_info_simps [simp]:
  "key (clone_info i) = key i"
  "subtreeHeight (clone_info i) = subtreeHeight i"
  "nodeKey (clone_info i) = None"
  by (simp_all add: clone_info_def zeroNode_def)


lemma clone_wf:
  assumes "getLeftNode db n = Inr l" "getRightNode db n = Inr r"
    "nodeKey (info n) = None \<longrightarrow> leftNode n \<noteq> None \<and> rightNode n \<noteq> None"
  shows "clone db n = Inr (Node (clone_info (info n)) (Some l) (Some r))"
  using assms by (auto simp: clone_def getLeftNode_def getRightNode_def split: option.splits)

lemma calcHeightAndSize_mem [simp]:
  "calcHeightAndSize db (Node i (Some l) (Some r)) =
     Inr (Node (i\<lparr> subtreeHeight := max (height l) (height r) + 1,
                   size_n := size_n (info l) + size_n (info r) \<rparr>) (Some l) (Some r))"
  by (simp add: calcHeightAndSize_def)

lemma calcBalance_mem [simp]:
  "calcBalance db (Node i (Some l) (Some r)) = Inr (height l - height r)"
  by (simp add: calcBalance_def)

lemma avl_height_nonneg: "avl db n \<Longrightarrow> 0 \<le> height n"
  by (induction rule: avl.induct) (auto simp: isLeaf_def)

lemma avl_mk:
  assumes "avl db l" "avl db r" "\<bar>height l - height r\<bar> \<le> 1" "nodeKey i = None"
    "subtreeHeight i = max (height l) (height r) + 1"
  shows "avl db (Node i (Some l) (Some r))"
proof -
  have "0 \<le> height l" "0 \<le> height r" using assms avl_height_nonneg by blast+
  then have "\<not> isLeaf (Node i (Some l) (Some r))" using assms(5) by (simp add: isLeaf_def)
  then show ?thesis
    using assms by (rule_tac l = l and r = r in avl_inner) simp_all
qed




lemma avl_not_leaf: "avl db n \<Longrightarrow> height n \<noteq> 0 \<Longrightarrow> \<not> isLeaf n"
  by (simp add: isLeaf_def)




section \<open>Set and Remove keep the tree balanced\<close>

lemma ndb_obj_addUnsavedAddition [simp]: "ndb_obj (addUnsavedAddition k f t) = ndb_obj t"
  by (simp add: addUnsavedAddition_def)

lemma ndb_obj_addUnsavedRemoval [simp]: "ndb_obj (addUnsavedRemoval k t) = ndb_obj t"
  by (simp add: addUnsavedRemoval_def)

lemma ndb_obj_orphan [simp]: "ndb_obj (orphan n t) = ndb_obj t"
  by (simp add: orphan_def split: option.splits)

lemma ImmutableTree_addUnsavedAddition [simp]:
  "ImmutableTree (addUnsavedAddition k f t) = ImmutableTree t"
  by (simp add: addUnsavedAddition_def)

lemma ImmutableTree_addUnsavedRemoval [simp]:
  "ImmutableTree (addUnsavedRemoval k t) = ImmutableTree t"
  by (simp add: addUnsavedRemoval_def)

lemma ImmutableTree_orphan [simp]: "ImmutableTree (orphan n t) = ImmutableTree t"
  by (simp add: orphan_def split: option.splits)

lemma ndb_obj_set_root [simp]: "ndb_obj (set_root r t) = ndb_obj t"
  by (simp add: set_root_def)

lemma tree_root_set_root [simp]: "tree_root (set_root r t) = r"
  by (simp add: set_root_def)

lemma NewNode_simps [simp]:
  "height (NewNode k v) = 0" "isLeaf (NewNode k v)" "nodeKey (info (NewNode k v)) = None"
  by (simp_all add: NewNode_def isLeaf_def zeroNode_def)

lemma avl_NewNode [simp]: "avl db (NewNode k v)"
  by (rule avl_leaf) simp














lemma recursiveSet_leaf: "isLeaf n \<Longrightarrow> recursiveSet t n k v = Some (set_leaf t n k v)"
  by (subst recursiveSet.simps) simp

section \<open>The example tree\<close>

lemmas ex_defs = ex_tree4_def ex_root4_def ex_left2_def ex_right2_def ex_inner_def ex_leaf_def
  ex_empty_def ex_db_def NewMutableTree_def it_clone_def set_root_def NewNode_def zeroNode_def Let_def

lemmas node_defs = isLeaf_def getLeftNode_def getRightNode_def clone_def clone_info_def
  calcHeightAndSize_def calcBalance_def bytes_Compare_def bytes_Equal_def raw_def
  set_leftNode_def set_rightNode_def

lemmas remove_defs = remove_left_def remove_right_def remove_rebalance_def balance_def orphan_def

lemmas mixed_defs = ex_tree_mixed_def ex_mixed_def ex_reused_def ex_H_def ex_inner_def ex_leaf_def
  ex_empty_def ex_db_def NewMutableTree_def NewNode_def zeroNode_def it_clone_def Let_def
  ex_mixed_keyed_def ex_leaf_keyed_def

lemma ex_leaf_avl: "avl db (ex_leaf k v)"
  by (simp add: ex_leaf_def)

lemma ex_leaf_height: "height (ex_leaf k v) = 0"
  by (simp add: ex_leaf_def)

lemma ex_left2_avl: "avl db ex_left2"
  unfolding ex_left2_def ex_inner_def
  by (rule avl_mk) (simp_all add: ex_leaf_avl ex_leaf_height zeroNode_def)

lemma ex_right2_avl: "avl db ex_right2"
  unfolding ex_right2_def ex_inner_def
  by (rule avl_mk) (simp_all add: ex_leaf_avl ex_leaf_height zeroNode_def)

lemma ex_height2: "height ex_left2 = 1" "height ex_right2 = 1"
  by (simp_all add: ex_left2_def ex_right2_def ex_inner_def)

lemma ex_root4_avl: "avl db ex_root4"
  unfolding ex_root4_def ex_inner_def
  by (rule avl_mk) (simp_all add: ex_left2_avl ex_right2_avl ex_height2 zeroNode_def)

lemma ex_tree4_avl: "avl_tree ex_tree4"
  by (simp add: avl_tree_def ex_tree4_def ex_root4_avl)

section \<open>Claims about Set, Remove and Get\<close>



subsection \<open>Removing a key that is absent\<close>

lemma recursiveRemove_absent:
  assumes "wf_node db n" and "ndb_obj t = db" and "\<not> has_key db n k"
  shows "\<exists>n'. recursiveRemove t n k = Some (t, Inr (Some n', None, None))"
  using assms
proof (induction rule: wf_node.induct)
  case (wf_leaf n)
  then have "\<not> bytes_Equal k (key (info n))"
    using has_key_leaf by blast
  with wf_leaf show ?case
    by (subst recursiveRemove.simps) simp
next
  case (wf_inner n l r)
  have nl: "\<not> has_key db l k" and nr: "\<not> has_key db r k"
    using wf_inner.prems wf_inner.hyps has_key_left has_key_right by blast+
  from wf_inner.IH(1) [OF wf_inner.prems(1) nl] obtain l' where
    L: "recursiveRemove t l k = Some (t, Inr (Some l', None, None))" by blast
  from wf_inner.IH(2) [OF wf_inner.prems(1) nr] obtain r' where
    R: "recursiveRemove t r k = Some (t, Inr (Some r', None, None))" by blast
  have C: "clone (ndb_obj t) n = Inr (Node (clone_info (info n)) (Some l) (Some r))"
    using wf_inner.hyps(2,3,4) wf_inner.prems(1) by (simp add: clone_wf)
  show ?case
    using wf_inner.hyps(1)
    by (subst recursiveRemove.simps) (simp add: C L R remove_left_def remove_right_def)
qed

lemma avl_wf_node: "avl db n \<Longrightarrow> wf_node db n"
  by (induction rule: avl.induct) (auto intro: wf_node.intros)

inductive_simps has_key_Node: "has_key db (Node i l r) k"

lemma ex_tree4_no_x: "\<not> tree_has_key ex_tree4 (Some ''x'')"
  by (simp add: tree_has_key_def ex_defs has_key_Node node_defs)

text \<open>
  C9. For every key that no leaf of the working tree carries (a null working root
  included), on a tree all of whose nodes resolve, Remove returns
  \<open>(nil, false, nil)\<close> and leaves the tree as it was: the root, the orphans list and
  both unsaved fast-index maps, as every other field.
\<close>

theorem Remove_absent:
  assumes "wf_tree t" and "\<not> tree_has_key t k"
  shows "Remove t k = Some (t, Inr (None, False))"
proof (cases "tree_root t")
  case None
  then show ?thesis by (simp add: Remove_def)
next
  case (Some n)
  with assms have "wf_node (ndb_obj t) n" "\<not> has_key (ndb_obj t) n k"
    by (simp_all add: wf_tree_def tree_has_key_def)
  then obtain n' where "recursiveRemove t n k = Some (t, Inr (Some n', None, None))"
    using recursiveRemove_absent by blast
  with Some show ?thesis by (simp add: Remove_def)
qed

theorem Remove_absent_witness:
  "wf_tree ex_tree4 \<and> \<not> tree_has_key ex_tree4 (Some ''x'')
   \<and> Remove ex_tree4 (Some ''x'') = Some (ex_tree4, Inr (None, False))
   \<and> Remove ex_empty (Some ''x'') = Some (ex_empty, Inr (None, False))"
proof -
  have w: "wf_tree ex_tree4"
    using ex_tree4_avl by (simp add: avl_tree_def wf_tree_def avl_wf_node split: option.splits)
  have e: "wf_tree ex_empty" "\<not> tree_has_key ex_empty (Some ''x'')"
    by (simp_all add: wf_tree_def tree_has_key_def ex_empty_def NewMutableTree_def Let_def)
  show ?thesis
    using w ex_tree4_no_x Remove_absent [OF w ex_tree4_no_x] Remove_absent [OF e] by simp
qed

subsection \<open>The new minimum key of recursiveRemove\<close>

lemma ex_remove_leaf_a:
  "recursiveRemove ex_tree4 (ex_leaf ''a'' ''1'') (Some ''a'') =
     Some (ex_tree4, Inr (None, None, Some ''1''))"
  by (subst recursiveRemove.simps) (simp add: ex_leaf_def NewNode_def zeroNode_def node_defs orphan_def)

lemma ex_remove_left2_a:
  "recursiveRemove ex_tree4 ex_left2 (Some ''a'') =
     Some (ex_tree4, Inr (Some (ex_leaf ''b'' ''2''), Some ''b'', Some ''1''))"
  by (simp add: recursiveRemove.simps ex_left2_def ex_inner_def ex_leaf_def NewNode_def zeroNode_def
      node_defs remove_defs)

lemma ex_remove_right2_c:
  "recursiveRemove ex_tree4 ex_right2 (Some ''c'') =
     Some (ex_tree4, Inr (Some (ex_leaf ''d'' ''4''), Some ''d'', Some ''3''))"
  by (simp add: recursiveRemove.simps ex_right2_def ex_inner_def ex_leaf_def NewNode_def zeroNode_def
      node_defs remove_defs)

text \<open>
  C3. recursiveRemove on an inner node \<open>n\<close> with children \<open>l\<close> and \<open>r\<close>, for a
  removal that found its leaf (a non-nil value \<open>Some v\<close>). Left side, the recursive call
  returns nil as the new subtree: the node is replaced by its untouched right child and
  its routing key goes upward as the new minimum. Left side otherwise: the new minimum
  from below goes upward unchanged, past the rebalancing. Right side, the recursive call
  returns a new minimum \<open>newKey\<close>: that key becomes the routing key of the node before
  heights are recomputed and balance runs, and the new minimum returned upward is nil.
\<close>

theorem recursiveRemove_new_minimum:
  assumes "\<not> isLeaf n"
    and "getLeftNode (ndb_obj t) n = Inr l" and "getRightNode (ndb_obj t) n = Inr r"
    and "nodeKey (info n) = None \<longrightarrow> leftNode n \<noteq> None \<and> rightNode n \<noteq> None"
  shows
    "(bytes_Compare k (key (info n)) < 0
        \<and> recursiveRemove t l k = Some (t', Inr (None, nk, Some v))
      \<longrightarrow> recursiveRemove t n k = Some (t', Inr (Some r, key (info n), Some v)))
     \<and> (bytes_Compare k (key (info n)) < 0
        \<and> recursiveRemove t l k = Some (t', Inr (Some l', nk, Some v))
      \<longrightarrow> recursiveRemove t n k =
            Some (remove_rebalance t' (Node (clone_info (info n)) (Some l') (Some r)) nk (Some v)))
     \<and> (\<not> bytes_Compare k (key (info n)) < 0
        \<and> recursiveRemove t r k = Some (t', Inr (Some r', Some newKey, Some v))
      \<longrightarrow> recursiveRemove t n k =
            Some (remove_rebalance t'
                    (Node ((clone_info (info n))\<lparr> key := Some newKey \<rparr>) (Some l) (Some r'))
                    None (Some v)))
     \<and> (remove_rebalance t2 m nk2 v2 = (t3, Inr (ns3, nk3, v3)) \<longrightarrow> nk3 = nk2 \<and> v3 = v2)"
proof -
  have C: "clone (ndb_obj t) n = Inr (Node (clone_info (info n)) (Some l) (Some r))"
    using assms(2,3,4) by (rule clone_wf)
  have 1: "recursiveRemove t n k = Some (t', Inr (Some r, key (info n), Some v))"
    if "bytes_Compare k (key (info n)) < 0"
      "recursiveRemove t l k = Some (t', Inr (None, nk, Some v))"
    using that assms(1) C by (subst recursiveRemove.simps) (simp add: remove_left_def)
  have 2: "recursiveRemove t n k =
      Some (remove_rebalance t' (Node (clone_info (info n)) (Some l') (Some r)) nk (Some v))"
    if "bytes_Compare k (key (info n)) < 0"
      "recursiveRemove t l k = Some (t', Inr (Some l', nk, Some v))"
    using that assms(1) C
    by (subst recursiveRemove.simps) (simp add: remove_left_def set_leftNode_def)
  have 3: "recursiveRemove t n k =
      Some (remove_rebalance t'
              (Node ((clone_info (info n))\<lparr> key := Some newKey \<rparr>) (Some l) (Some r'))
              None (Some v))"
    if "\<not> bytes_Compare k (key (info n)) < 0"
      "recursiveRemove t r k = Some (t', Inr (Some r', Some newKey, Some v))"
    using that assms(1) C
    by (subst recursiveRemove.simps) (simp add: remove_right_def set_rightNode_def Let_def)
  have 4: "nk3 = nk2 \<and> v3 = v2" if "remove_rebalance t2 m nk2 v2 = (t3, Inr (ns3, nk3, v3))"
    using that by (auto simp: remove_rebalance_def split: sum.splits)
  from 1 2 3 4 show ?thesis by blast
qed

theorem recursiveRemove_new_minimum_witness:
  "recursiveRemove ex_tree4 ex_left2 (Some ''a'') =
     Some (ex_tree4, Inr (Some (ex_leaf ''b'' ''2''), Some ''b'', Some ''1''))
   \<and> recursiveRemove ex_tree4 ex_root4 (Some ''a'') =
     Some (ex_tree4, Inr (Some (ex_inner ''c'' 2 (ex_leaf ''b'' ''2'') ex_right2), Some ''b'', Some ''1''))
   \<and> recursiveRemove ex_tree4 ex_root4 (Some ''c'') =
     Some (ex_tree4, Inr (Some (ex_inner ''d'' 2 ex_left2 (ex_leaf ''d'' ''4'')), None, Some ''3''))"
proof -
  have 1: "recursiveRemove ex_tree4 ex_left2 (Some ''a'') =
     Some (ex_tree4, Inr (Some (ex_leaf ''b'' ''2''), Some ''b'', Some ''1''))"
    using recursiveRemove_new_minimum [where n = ex_left2 and t = ex_tree4
        and l = "ex_leaf ''a'' ''1''" and r = "ex_leaf ''b'' ''2''" and k = "Some ''a''"
        and t' = ex_tree4 and nk = None and v = "''1''"] ex_remove_leaf_a
    by (simp add: ex_left2_def ex_inner_def ex_leaf_def NewNode_def zeroNode_def node_defs)
  have 2: "recursiveRemove ex_tree4 ex_root4 (Some ''a'') =
     Some (ex_tree4, Inr (Some (ex_inner ''c'' 2 (ex_leaf ''b'' ''2'') ex_right2), Some ''b'', Some ''1''))"
    using recursiveRemove_new_minimum [where n = ex_root4 and t = ex_tree4
        and l = ex_left2 and r = ex_right2 and k = "Some ''a''"
        and t' = ex_tree4 and nk = "Some ''b''" and v = "''1''" and l' = "ex_leaf ''b'' ''2''"]
      ex_remove_left2_a
    by (simp add: ex_root4_def ex_left2_def ex_right2_def ex_inner_def ex_leaf_def NewNode_def
        zeroNode_def node_defs remove_defs)
  have 3: "recursiveRemove ex_tree4 ex_root4 (Some ''c'') =
     Some (ex_tree4, Inr (Some (ex_inner ''d'' 2 ex_left2 (ex_leaf ''d'' ''4'')), None, Some ''3''))"
    using recursiveRemove_new_minimum [where n = ex_root4 and t = ex_tree4
        and l = ex_left2 and r = ex_right2 and k = "Some ''c''"
        and t' = ex_tree4 and v = "''3''" and r' = "ex_leaf ''d'' ''4''" and newKey = "''d''"]
      ex_remove_right2_c
    by (simp add: ex_root4_def ex_left2_def ex_right2_def ex_inner_def ex_leaf_def NewNode_def
        zeroNode_def node_defs remove_defs)
  from 1 2 3 show ?thesis by simp
qed

subsection \<open>Get and the unsaved fast-index maps\<close>

lemma ex_it_Get_c:
  "it_Get (ndb_obj ex_tree4) (ImmutableTree ex_tree4) (Some ''c'') = Some (Inr (Some ''3''))"
  by (simp add: it_Get_def node_get.simps ex_defs node_defs)

text \<open>
  C5. MutableTree.Get returns null when the working root is null. Otherwise, when the
  fast index is not skipped: a key among the unsaved additions gives the value recorded
  there, a key among the unsaved removals gives null. In all remaining cases (fast index
  skipped, or the key in neither map) the result is that of ImmutableTree.Get on the
  working tree.
\<close>

theorem Get_overlay:
  "(tree_root t = None \<longrightarrow> Get t k = Some (Inr None))
   \<and> (tree_root t \<noteq> None \<and> \<not> skipFastStorageUpgrade t
        \<and> map_of (unsavedFastNodeAdditions t) (raw k) = Some fnode
      \<longrightarrow> Get t k = Some (Inr (fn_value fnode)))
   \<and> (tree_root t \<noteq> None \<and> \<not> skipFastStorageUpgrade t
        \<and> map_of (unsavedFastNodeAdditions t) (raw k) = None \<and> map_of (unsavedFastNodeRemovals t) (raw k) \<noteq> None
      \<longrightarrow> Get t k = Some (Inr None))
   \<and> (tree_root t \<noteq> None
        \<and> (skipFastStorageUpgrade t
            \<or> map_of (unsavedFastNodeAdditions t) (raw k) = None \<and> map_of (unsavedFastNodeRemovals t) (raw k) = None)
      \<longrightarrow> Get t k = it_Get (ndb_obj t) (ImmutableTree t) k)"
  by (auto simp: Get_def split: option.splits)

theorem Get_overlay_witness:
  "Get ex_empty (Some ''c'') = Some (Inr None)
   \<and> Get (addUnsavedAddition (Some ''c'') (fastnode_NewNode (Some ''c'') (Some ''9'') 1) ex_tree4)
        (Some ''c'') = Some (Inr (Some ''9''))
   \<and> Get (addUnsavedRemoval (Some ''c'') ex_tree4) (Some ''c'') = Some (Inr None)
   \<and> Get ex_tree4 (Some ''c'') = Some (Inr (Some ''3''))"
proof -
  let ?add = "addUnsavedAddition (Some ''c'') (fastnode_NewNode (Some ''c'') (Some ''9'') 1) ex_tree4"
  let ?rem = "addUnsavedRemoval (Some ''c'') ex_tree4"
  have 1: "Get ex_empty (Some ''c'') = Some (Inr None)"
    using Get_overlay [of ex_empty "Some ''c''"] by (simp add: ex_defs)
  have 2: "Get ?add (Some ''c'') = Some (Inr (Some ''9''))"
    using Get_overlay [of ?add "Some ''c''" "fastnode_NewNode (Some ''c'') (Some ''9'') 1"]
    by (simp add: ex_defs addUnsavedAddition_def fastnode_NewNode_def raw_def)
  have 3: "Get ?rem (Some ''c'') = Some (Inr None)"
    using Get_overlay [of ?rem "Some ''c''"]
    by (simp add: ex_defs addUnsavedRemoval_def raw_def)
  have 4: "Get ex_tree4 (Some ''c'') = Some (Inr (Some ''3''))"
    using Get_overlay [of ex_tree4 "Some ''c''"] ex_it_Get_c
    by (simp add: ex_defs raw_def)
  from 1 2 3 4 show ?thesis by simp
qed

subsection \<open>Set and the nil value\<close>

text \<open>
  C6, as the code has it. For every key, Set fails with the invalid-argument error whenever
  the value is nil, and in that failing case the tree (working root, unsaved fast-index maps
  and every other field) is unchanged. The guard is \<open>value == nil\<close> and nothing else.
\<close>

theorem Set_nil_value: "Set_mt t k None = Some (t, Inl InvalidArgument)"
  by (simp add: Set_mt_def set_mt_def)

text \<open>
  The claim as stated fails for the empty, non-nil value: on the new tree Set stores the
  leaf, records the fast-index addition and reports no error; and on a tree of one leaf
  Set goes through recursiveSet and stores the new leaf with the empty value beside it.
\<close>

theorem Set_empty_value_counterexample:
  "Set_mt ex_empty (Some ''k'') (Some []) =
     Some (set_root (Some (NewNode (Some ''k'') (Some [])))
             (addUnsavedAddition (Some ''k'') (fastnode_NewNode (Some ''k'') (Some []) 1) ex_empty),
           Inr False)
   \<and> Set_mt ex_s1 (Some ''b'') (Some []) = Some (after_Set ex_s1 (Some ''b'') (Some []), Inr False)
   \<and> tree_root (after_Set ex_s1 (Some ''b'') (Some [])) =
       Some (ex_inner ''b'' 1 (NewNode (Some ''a'') (Some ''1'')) (NewNode (Some ''b'') (Some [])))"
  by (simp add: Set_mt_def set_mt_def ex_empty_def ex_s1_def after_Set_def ex_db_def ex_inner_def
      NewMutableTree_def NewNode_def zeroNode_def Let_def it_clone_def set_root_def
      recursiveSet_leaf set_leaf_def isLeaf_def bytes_Compare_def raw_def)

section \<open>Claims about Rollback and GetVersioned\<close>

lemma it_clone_id [simp]: "it_clone t = t"
  by (simp add: it_clone_def)

subsection \<open>Rollback\<close>



lemma fast_inv_orphan [simp]: "fast_inv (orphan n t) = fast_inv t"
  by (simp add: fast_inv_def orphan_def split: option.splits)

lemma fast_inv_set_root [simp]: "fast_inv (set_root r t) = fast_inv t"
  by (simp add: fast_inv_def set_root_def)

lemma skip_addUnsavedAddition [simp]:
  "skipFastStorageUpgrade (addUnsavedAddition k f t) = skipFastStorageUpgrade t"
  by (simp add: addUnsavedAddition_def)

lemma skip_addUnsavedRemoval [simp]:
  "skipFastStorageUpgrade (addUnsavedRemoval k t) = skipFastStorageUpgrade t"
  by (simp add: addUnsavedRemoval_def)















lemma fast_fields_publish [simp]: "fast_fields (publish ver r t) = fast_fields t"
  by (simp add: publish_def Let_def fast_fields_def)

lemma fast_fields_set_root [simp]: "fast_fields (set_root r t) = fast_fields t"
  by (simp add: set_root_def fast_fields_def)

lemma fast_fields_ndb_obj [simp]: "fast_fields (t\<lparr> ndb_obj := db \<rparr>) = fast_fields t"
  by (simp add: fast_fields_def)

lemma fast_fields_versions [simp]: "fast_fields (t\<lparr> versions := vs \<rparr>) = fast_fields t"
  by (simp add: fast_fields_def)








lemmas save_defs = SaveVersion_def save_existing_def save_new_def load_root_def VersionExists_def
  target_version_def publish_def WorkingHash_def Hash_def it_Hash_def same_tree_def bytes_Equal_def
  raw_def

lemmas session_defs = after_Set_def after_SaveVersion_def Set_mt_def set_mt_def ex_Hk_def ex_db_def
  NewMutableTree_def NewNode_def zeroNode_def it_clone_def set_root_def Let_def
  saveNewNodes_def saveFastNodeVersion_def saveFastNodeAdditions_def saveFastNodeRemovals_def
  db_step_def db_write_op_def node_hash_def child_key_def
  recursiveSet_leaf set_leaf_def isLeaf_def bytes_Compare_def orphan_def
  addUnsavedAddition_def fastnode_NewNode_def






text \<open>
  C8. GetVersioned returns a null value and no error when the version does not exist, and
  also when the call reaches the load of the snapshot (the fast index did not decide it)
  and GetImmutable fails there: a failed root lookup, an absent root or a failed root
  node lookup in the backing store is reported as an absent value, not as an error.
\<close>

theorem GetVersioned_absent:
  "(\<not> snd (VersionExists t v)
      \<longrightarrow> GetVersioned t k v = Some (fst (VersionExists t v), Inr None))
   \<and> (snd (VersionExists t v) \<and> fast_lookup (fst (VersionExists t v)) k v = None
       \<and> snd (GetImmutable (fst (VersionExists t v)) v) = Inl e
      \<longrightarrow> GetVersioned t k v = Some (fst (GetImmutable (fst (VersionExists t v)) v), Inr None))
   \<and> (db_GetRoot (ndb_obj t) v = Inl e \<longrightarrow> snd (GetImmutable t v) = Inl e)
   \<and> (db_GetRoot (ndb_obj t) v = Inr None \<longrightarrow> snd (GetImmutable t v) = Inl NotFound)
   \<and> (db_GetRoot (ndb_obj t) v = Inr (Some rk) \<and> nk_version rk \<noteq> 0
        \<and> db_GetNode (ndb_obj t) (Some rk) = Inl e
      \<longrightarrow> snd (GetImmutable t v) = Inl e)"
  by (auto simp: GetVersioned_def GetImmutable_def Let_def split: prod.splits sum.splits option.splits)

theorem GetVersioned_absent_witness:
  "GetVersioned ex_empty (Some ''a'') 7 =
     Some (ex_empty\<lparr> versions := [7 \<mapsto> False] \<rparr>, Inr None)
   \<and> GetVersioned ex_tree_fail (Some ''a'') 7 =
     Some (ex_tree_fail\<lparr> versions := [7 \<mapsto> True] \<rparr>, Inr None)"
proof -
  have 1: "GetVersioned ex_empty (Some ''a'') 7 =
     Some (ex_empty\<lparr> versions := [7 \<mapsto> False] \<rparr>, Inr None)"
    using GetVersioned_absent [of ex_empty 7 "Some ''a''"]
    by (simp add: VersionExists_def ex_empty_def ex_db_def NewMutableTree_def Let_def)
  have 2: "GetVersioned ex_tree_fail (Some ''a'') 7 =
     Some (ex_tree_fail\<lparr> versions := [7 \<mapsto> True] \<rparr>, Inr None)"
    using GetVersioned_absent [of ex_tree_fail 7 "Some ''a''" IO]
    by (simp add: VersionExists_def GetImmutable_def fast_lookup_def ex_tree_fail_def ex_db_fail_def
        ex_db_def NewMutableTree_def Let_def)
  from 1 2 show ?thesis by simp
qed

section \<open>Claims about saveNewNodes and SaveVersion\<close>

lemma node_hash_ok:
  assumes "node_hash H ver n = (n', None)"
  shows "\<exists>h. n' = Node ((info n)\<lparr> hash := h \<rparr>) (leftNode n) (rightNode n)"
proof (cases "hash (info n)")
  case None
  with assms show ?thesis
    by (auto simp: node_hash_def split: sum.splits)
next
  case (Some h)
  with assms have "n' = n" by (simp add: node_hash_def)
  then have "n' = Node ((info n)\<lparr> hash := hash (info n) \<rparr>) (leftNode n) (rightNode n)"
    by simp
  then show ?thesis by blast
qed

lemma assign_keyed: "nodeKey i = Some nk \<Longrightarrow> recursiveAssignKey H ver (Node i l r) path = (Node i l r, None)"
  by simp

lemma assign_nodeKey:
  "recursiveAssignKey H ver n path = (n', None) \<Longrightarrow> nodeKey (info n') \<noteq> None"
  by (cases n) (auto simp: Let_def node_hash_def split: option.splits prod.splits sum.splits)

lemma assign_new:
  assumes "nodeKey i = None" and "recursiveAssignKey H ver (Node i l r) path = (n', None)"
  shows "nodeKey (info n') = Some (NodeKey ver path)"
    and "leftNode n' = map_option (\<lambda>ln. fst (recursiveAssignKey H ver ln (push_bit 1 path))) l"
    and "rightNode n' = map_option (\<lambda>rn. fst (recursiveAssignKey H ver rn (or (push_bit 1 path) 1))) r"
    and "leftNodeKey (info n') =
           (case leftNode n' of None \<Rightarrow> leftNodeKey i | Some c \<Rightarrow> child_key ver c (leftNodeKey i))"
    and "rightNodeKey (info n') =
           (case rightNode n' of None \<Rightarrow> rightNodeKey i | Some c \<Rightarrow> child_key ver c (rightNodeKey i))"
    and "\<And>ln. l = Some ln \<Longrightarrow> snd (recursiveAssignKey H ver ln (push_bit 1 path)) = None"
    and "\<And>rn. r = Some rn \<Longrightarrow> snd (recursiveAssignKey H ver rn (or (push_bit 1 path) 1)) = None"
  using assms
  by (auto simp: Let_def split: option.splits prod.splits dest!: node_hash_ok)


lemma db_write_op_ok:
  "db_write_op db w = (db1, None) \<Longrightarrow> db1 = db\<lparr> batch := batch db @ [w] \<rparr>"
  by (auto simp: db_write_op_def split: option.splits)

lemma recursiveSave_batch:
  "recursiveSave ver db n = (n2, db', None)
   \<Longrightarrow> db' = db\<lparr> batch := batch db @ map SaveNode (new_nodes ver n) \<rparr>"
proof (induction ver db n arbitrary: n2 db' rule: recursiveSave.induct)
  case (1 ver db i l r)
  show ?case
  proof (cases "nodeKey i")
    case None
    with "1.prems" show ?thesis by simp
  next
    case (Some nk)
    show ?thesis
    proof (cases "nk_version nk < ver")
      case True
      with Some "1.prems" show ?thesis by auto
    next
      case False
      with Some "1.prems" obtain db1 where
        w: "db_write_op db (SaveNode (Node i l r)) = (db1, None)"
        by (auto split: prod.splits option.splits)
      then have db1: "db1 = db\<lparr> batch := batch db @ [SaveNode (Node i l r)] \<rparr>"
        by (rule db_write_op_ok)
      obtain db2 where
        l: "db2 = db1\<lparr> batch := batch db1 @ map SaveNode (case l of None \<Rightarrow> [] | Some ln \<Rightarrow> new_nodes ver ln) \<rparr>"
          "(case l of None \<Rightarrow> (None, db1, None)
             | Some ln \<Rightarrow> (case recursiveSave ver db1 ln of
                             (ln', db2, Some e) \<Rightarrow> (Some ln', db2, Some e)
                           | (ln', db2, None) \<Rightarrow> (None, db2, None))) = (None, db2, None)"
      proof (cases l)
        case None
        then show ?thesis using that [of db1] by simp
      next
        case (Some ln)
        with "1.prems" \<open>nodeKey i = Some nk\<close> False w obtain ln' dbl where
          rl: "recursiveSave ver db1 ln = (ln', dbl, None)"
          by (auto split: prod.splits option.splits)
        from "1.IH"(1) [OF \<open>nodeKey i = Some nk\<close> False w [symmetric] refl Some rl]
        have "dbl = db1\<lparr> batch := batch db1 @ map SaveNode (new_nodes ver ln) \<rparr>" .
        then show ?thesis using that [of dbl] Some rl by simp
      qed
      show ?thesis
      proof (cases r)
        case None
        with "1.prems" Some False w l db1 show ?thesis by auto
      next
        case rn: (Some rn)
        with "1.prems" Some False w l(2) obtain rn' dbr where
          rr: "recursiveSave ver db2 rn = (rn', dbr, None)"
          by (auto split: prod.splits option.splits)
        from "1.IH"(2) [OF Some False w [symmetric] refl l(2) [symmetric] refl refl rn rr]
        have "dbr = db2\<lparr> batch := batch db2 @ map SaveNode (new_nodes ver rn) \<rparr>" .
        with "1.prems" Some False w l db1 rn rr show ?thesis by auto
      qed
    qed
  qed
qed


lemma recursiveSave_node:
  assumes "recursiveSave ver db n = (n2, db', None)"
  shows "(new_nodes ver n = [] \<longrightarrow> n2 = n)
     \<and> (new_nodes ver n \<noteq> [] \<longrightarrow> n2 = Node (info n) None None)"
  using assms
  by (cases n) (auto split: option.splits prod.splits if_splits)

lemma new_nodes_versions:
  "m \<in> set (new_nodes ver n) \<Longrightarrow> \<exists>k. nodeKey (info m) = Some k \<and> \<not> nk_version k < ver"
proof (induction ver n rule: new_nodes.induct)
  case (1 ver i l r)
  show ?case
  proof (cases "nodeKey i")
    case None
    with "1.prems" show ?thesis by simp
  next
    case (Some nk)
    show ?thesis
    proof (cases "nk_version nk < ver")
      case True
      with Some "1.prems" show ?thesis by simp
    next
      case False
      with Some "1.prems" consider (self) "m = Node i l r"
        | (left) ln where "l = Some ln" "m \<in> set (new_nodes ver ln)"
        | (right) rn where "r = Some rn" "m \<in> set (new_nodes ver rn)"
        by (auto split: option.splits)
      then show ?thesis
      proof cases
        case self
        with Some False show ?thesis by simp
      next
        case left
        then show ?thesis using "1.IH"(1) [OF Some False left(1)] by blast
      next
        case right
        then show ?thesis using "1.IH"(2) [OF Some False right(1)] by blast
      qed
    qed
  qed
qed

lemma assigned_versions:
  "reused_below ver n \<Longrightarrow> recursiveAssignKey H ver n path = (n1, None)
   \<Longrightarrow> m \<in> set (new_nodes ver n1) \<Longrightarrow> \<exists>p. nodeKey (info m) = Some (NodeKey ver p)"
proof (induction H ver n path arbitrary: n1 m rule: recursiveAssignKey.induct)
  case (1 H ver i l r path)
  show ?case
  proof (cases "nodeKey i")
    case (Some nk)
    with "1.prems" show ?thesis by auto
  next
    case None
    note a = assign_new [OF None "1.prems"(2)]
    from a(1) have k: "nodeKey (info n1) = Some (NodeKey ver path)" .
    obtain i1 l1 r1 where n1: "n1 = Node i1 l1 r1" by (cases n1)
    with "1.prems"(3) k consider (self) "m = n1"
      | (left) ln where "l1 = Some ln" "m \<in> set (new_nodes ver ln)"
      | (right) rn where "r1 = Some rn" "m \<in> set (new_nodes ver rn)"
      by (auto split: option.splits if_splits)
    then show ?thesis
    proof cases
      case self
      with k show ?thesis by blast
    next
      case left
      with a(2) n1 obtain l0 where l0: "l = Some l0"
        "ln = fst (recursiveAssignKey H ver l0 (push_bit 1 path))" by (cases l) auto
      with a(6) have e: "recursiveAssignKey H ver l0 (push_bit 1 path) = (ln, None)"
        by (metis prod.collapse)
      have rb: "reused_below ver l0" using "1.prems"(1) None l0 by simp
      show ?thesis
        using "1.IH"(1) [OF None refl l0(1) rb e left(2)] .
    next
      case right
      with a(3) n1 obtain r0 where r0: "r = Some r0"
        "rn = fst (recursiveAssignKey H ver r0 (or (push_bit 1 path) 1))" by (cases r) auto
      with a(7) have e: "recursiveAssignKey H ver r0 (or (push_bit 1 path) 1) = (rn, None)"
        by (metis prod.collapse)
      have rb: "reused_below ver r0" using "1.prems"(1) None r0 by simp
      obtain l' where le: "(case l of None \<Rightarrow> (None, None)
          | Some ln \<Rightarrow> (case recursiveAssignKey H ver ln (push_bit 1 path) of (ln', err) \<Rightarrow> (Some ln', err)))
          = (l', None)"
      proof (cases l)
        case None
        then show ?thesis using that [of None] by simp
      next
        case (Some l0)
        obtain x e where xe: "recursiveAssignKey H ver l0 (push_bit 1 path) = (x, e)"
          by (cases "recursiveAssignKey H ver l0 (push_bit 1 path)")
        with a(6) [OF Some] have "e = None" by simp
        with xe Some show ?thesis using that [of "Some x"] by simp
      qed
      show ?thesis
        using "1.IH"(2) [OF None refl le [symmetric] refl refl r0(1) rb e right(2)] .
    qed
  qed
qed

text \<open>
  What the pass of saveNewNodes does, for the version \<open>ver\<close> it works with, which is
  \<open>tree.version + 1\<close>. A node that has a NodeKey is left as it is. A transient node
  receives the NodeKey (ver, path); its left child is visited with the path shifted left by
  one and its right child with that path and bit 0 set; every child visited has a NodeKey
  afterwards, and the left (right) child key of the node is set to it when its version is
  below ver and is otherwise left as it was. recursiveSave then writes a node exactly when
  the version of its NodeKey is not below ver, root first, then the left and the right
  subtree; when the keys met on the way down before the pass are all of versions below
  ver, the nodes written are the ones that carry ver. A node that was written is left with
  both in-memory child pointers nil; a node that was not written is unchanged.
\<close>

lemma saveNewNodes_pass:
  "(nodeKey i = Some nk \<longrightarrow> recursiveAssignKey H ver (Node i l r) path = (Node i l r, None))
   \<and> (nodeKey i = None \<and> recursiveAssignKey H ver (Node i l r) path = (n', None) \<longrightarrow>
        nodeKey (info n') = Some (NodeKey ver path)
        \<and> leftNode n' = map_option (\<lambda>ln. fst (recursiveAssignKey H ver ln (push_bit 1 path))) l
        \<and> rightNode n' =
            map_option (\<lambda>rn. fst (recursiveAssignKey H ver rn (or (push_bit 1 path) 1))) r
        \<and> (\<forall>c. leftNode n' = Some c \<longrightarrow>
              (\<exists>ck. nodeKey (info c) = Some ck
                 \<and> leftNodeKey (info n') = (if nk_version ck < ver then Some ck else leftNodeKey i)))
        \<and> (\<forall>c. rightNode n' = Some c \<longrightarrow>
              (\<exists>ck. nodeKey (info c) = Some ck
                 \<and> rightNodeKey (info n') = (if nk_version ck < ver then Some ck else rightNodeKey i)))
        \<and> (l = None \<longrightarrow> leftNodeKey (info n') = leftNodeKey i)
        \<and> (r = None \<longrightarrow> rightNodeKey (info n') = rightNodeKey i))
   \<and> (recursiveSave ver db n = (ns, db', None) \<longrightarrow>
        db' = db\<lparr> batch := batch db @ map SaveNode (new_nodes ver n) \<rparr>
        \<and> (new_nodes ver n = [] \<longrightarrow> ns = n)
        \<and> (new_nodes ver n \<noteq> [] \<longrightarrow> ns = Node (info n) None None))
   \<and> (\<forall>m \<in> set (new_nodes ver n). \<exists>k. nodeKey (info m) = Some k \<and> \<not> nk_version k < ver)
   \<and> (reused_below ver na \<and> recursiveAssignKey H ver na patha = (nb, None) \<longrightarrow>
        (\<forall>m \<in> set (new_nodes ver nb). \<exists>p. nodeKey (info m) = Some (NodeKey ver p)))
   \<and> (tree_root t = Some rt \<and> saveNewNodes H t = (t', None) \<longrightarrow>
        snd (recursiveAssignKey H (int64 (tree_version t + 1)) rt 1) = None
        \<and> ndb_obj t' = (ndb_obj t)\<lparr> batch := batch (ndb_obj t)
              @ map SaveNode (new_nodes (int64 (tree_version t + 1))
                                (fst (recursiveAssignKey H (int64 (tree_version t + 1)) rt 1))) \<rparr>)"
proof -
  have 1: "nodeKey i = Some nk \<longrightarrow> recursiveAssignKey H ver (Node i l r) path = (Node i l r, None)"
    by simp
  have 2: "nodeKey (info n') = Some (NodeKey ver path)
        \<and> leftNode n' = map_option (\<lambda>ln. fst (recursiveAssignKey H ver ln (push_bit 1 path))) l
        \<and> rightNode n' =
            map_option (\<lambda>rn. fst (recursiveAssignKey H ver rn (or (push_bit 1 path) 1))) r
        \<and> (\<forall>c. leftNode n' = Some c \<longrightarrow>
              (\<exists>ck. nodeKey (info c) = Some ck
                 \<and> leftNodeKey (info n') = (if nk_version ck < ver then Some ck else leftNodeKey i)))
        \<and> (\<forall>c. rightNode n' = Some c \<longrightarrow>
              (\<exists>ck. nodeKey (info c) = Some ck
                 \<and> rightNodeKey (info n') = (if nk_version ck < ver then Some ck else rightNodeKey i)))
        \<and> (l = None \<longrightarrow> leftNodeKey (info n') = leftNodeKey i)
        \<and> (r = None \<longrightarrow> rightNodeKey (info n') = rightNodeKey i)"
    if a: "nodeKey i = None" "recursiveAssignKey H ver (Node i l r) path = (n', None)"
  proof -
    note f = assign_new [OF a]
    have lk: "\<exists>ck. nodeKey (info c) = Some ck
        \<and> leftNodeKey (info n') = (if nk_version ck < ver then Some ck else leftNodeKey i)"
      if c: "leftNode n' = Some c" for c
    proof -
      from c f(2) obtain l0 where l0: "l = Some l0"
        "c = fst (recursiveAssignKey H ver l0 (push_bit 1 path))" by (cases l) auto
      with f(6) have "recursiveAssignKey H ver l0 (push_bit 1 path) = (c, None)"
        by (metis prod.collapse)
      then obtain ck where "nodeKey (info c) = Some ck"
        using assign_nodeKey by blast
      then show ?thesis using f(4) c by (simp add: child_key_def)
    qed
    have rk: "\<exists>ck. nodeKey (info c) = Some ck
        \<and> rightNodeKey (info n') = (if nk_version ck < ver then Some ck else rightNodeKey i)"
      if c: "rightNode n' = Some c" for c
    proof -
      from c f(3) obtain r0 where r0: "r = Some r0"
        "c = fst (recursiveAssignKey H ver r0 (or (push_bit 1 path) 1))" by (cases r) auto
      with f(7) have "recursiveAssignKey H ver r0 (or (push_bit 1 path) 1) = (c, None)"
        by (metis prod.collapse)
      then obtain ck where "nodeKey (info c) = Some ck"
        using assign_nodeKey by blast
      then show ?thesis using f(5) c by (simp add: child_key_def)
    qed
    have ln: "l = None \<longrightarrow> leftNodeKey (info n') = leftNodeKey i"
      using f(2,4) by auto
    have rn: "r = None \<longrightarrow> rightNodeKey (info n') = rightNodeKey i"
      using f(3,5) by auto
    from f(1,2,3) lk rk ln rn show ?thesis by blast
  qed
  have 3: "db' = db\<lparr> batch := batch db @ map SaveNode (new_nodes ver n) \<rparr>
        \<and> (new_nodes ver n = [] \<longrightarrow> ns = n)
        \<and> (new_nodes ver n \<noteq> [] \<longrightarrow> ns = Node (info n) None None)"
    if "recursiveSave ver db n = (ns, db', None)"
    using that recursiveSave_batch recursiveSave_node by blast
  have 4: "\<forall>m \<in> set (new_nodes ver n). \<exists>k. nodeKey (info m) = Some k \<and> \<not> nk_version k < ver"
    using new_nodes_versions by blast
  have 5: "\<forall>m \<in> set (new_nodes ver nb). \<exists>p. nodeKey (info m) = Some (NodeKey ver p)"
    if "reused_below ver na" "recursiveAssignKey H ver na patha = (nb, None)"
    using that assigned_versions by blast
  have 6: "snd (recursiveAssignKey H (int64 (tree_version t + 1)) rt 1) = None
        \<and> ndb_obj t' = (ndb_obj t)\<lparr> batch := batch (ndb_obj t)
              @ map SaveNode (new_nodes (int64 (tree_version t + 1))
                                (fst (recursiveAssignKey H (int64 (tree_version t + 1)) rt 1))) \<rparr>"
    if s: "tree_root t = Some rt" "saveNewNodes H t = (t', None)"
  proof -
    obtain nb e1 where a: "recursiveAssignKey H (int64 (tree_version t + 1)) rt 1 = (nb, e1)"
      by (cases "recursiveAssignKey H (int64 (tree_version t + 1)) rt 1")
    with s have e1: "e1 = None"
      by (cases e1) (simp_all add: saveNewNodes_def)
    obtain ns db2 e2 where b: "recursiveSave (int64 (tree_version t + 1)) (ndb_obj t) nb = (ns, db2, e2)"
      by (cases "recursiveSave (int64 (tree_version t + 1)) (ndb_obj t) nb")
    with s a e1 have "e2 = None" "ndb_obj t' = db2"
      by (auto simp: saveNewNodes_def)
    with b recursiveSave_batch a e1 show ?thesis by fastforce
  qed
  from 1 2 3 4 5 6 show ?thesis by blast
qed

lemma ex_assign_mixed: "recursiveAssignKey ex_H 2 ex_mixed 1 = (ex_mixed_keyed, None)"
  by (simp add: mixed_defs node_hash_def child_key_def)

lemma ex_save_mixed:
  "saveNewNodes ex_H ex_tree_mixed =
     ((set_root (Some (Node (info ex_mixed_keyed) None None)) ex_tree_mixed)
        \<lparr> ndb_obj := ex_db\<lparr> batch := [SaveNode ex_mixed_keyed, SaveNode ex_leaf_keyed] \<rparr> \<rparr>, None)"
  by (simp add: saveNewNodes_def mixed_defs node_hash_def child_key_def db_write_op_def set_root_def)

lemma saveNewNodes_pass_example:
  "recursiveAssignKey ex_H 2 ex_reused 3 = (ex_reused, None)
   \<and> recursiveAssignKey ex_H 2 ex_mixed 1 = (ex_mixed_keyed, None)
   \<and> nodeKey (info ex_mixed_keyed) = Some (NodeKey 2 1)
   \<and> leftNode ex_mixed_keyed = Some ex_leaf_keyed
   \<and> nodeKey (info ex_leaf_keyed) = Some (NodeKey 2 2)
   \<and> leftNodeKey (info ex_mixed_keyed) = None
   \<and> rightNodeKey (info ex_mixed_keyed) = Some (NodeKey 1 3)
   \<and> new_nodes 2 ex_mixed_keyed = [ex_mixed_keyed, ex_leaf_keyed]
   \<and> ndb_obj (fst (saveNewNodes ex_H ex_tree_mixed)) =
        ex_db\<lparr> batch := [SaveNode ex_mixed_keyed, SaveNode ex_leaf_keyed] \<rparr>
   \<and> tree_root (fst (saveNewNodes ex_H ex_tree_mixed)) = Some (Node (info ex_mixed_keyed) None None)"
proof -
  have shape: "ex_mixed = Node (info ex_mixed) (Some (ex_leaf ''a'' ''1'')) (Some ex_reused)"
    "ex_reused = Node (info ex_reused) None None"
    by (simp_all add: ex_mixed_def ex_inner_def ex_reused_def)
  have keys: "nodeKey (info ex_mixed) = None" "nodeKey (info ex_reused) = Some (NodeKey 1 3)"
    by (simp_all add: ex_mixed_def ex_inner_def ex_reused_def zeroNode_def)
  have n: "new_nodes 2 ex_mixed_keyed = [ex_mixed_keyed, ex_leaf_keyed]"
    by (simp add: mixed_defs)
  have r: "reused_below 2 ex_mixed"
    by (simp add: mixed_defs)
  have t: "tree_root ex_tree_mixed = Some ex_mixed" "tree_version ex_tree_mixed + 1 = 2"
    "ndb_obj ex_tree_mixed = ex_db" "batch ex_db = []"
    by (simp_all add: ex_tree_mixed_def ex_empty_def NewMutableTree_def Let_def ex_db_def)
  have s: "saveNewNodes ex_H ex_tree_mixed = (fst (saveNewNodes ex_H ex_tree_mixed), None)"
    by (simp add: ex_save_mixed)
  have 1: "recursiveAssignKey ex_H 2 ex_reused 3 = (ex_reused, None)"
    using saveNewNodes_pass [where i = "info ex_reused" and nk = "NodeKey 1 3" and H = ex_H
        and ver = 2 and l = None and r = None and path = 3] keys(2) shape(2) by simp
  have 2: "nodeKey (info ex_mixed_keyed) = Some (NodeKey 2 1)
      \<and> (\<forall>c. rightNode ex_mixed_keyed = Some c \<longrightarrow>
              (\<exists>ck. nodeKey (info c) = Some ck
                 \<and> rightNodeKey (info ex_mixed_keyed) =
                    (if nk_version ck < 2 then Some ck else rightNodeKey (info ex_mixed))))"
    using saveNewNodes_pass [where i = "info ex_mixed" and H = ex_H
        and ver = 2 and l = "Some (ex_leaf ''a'' ''1'')" and r = "Some ex_reused" and path = 1
        and n' = ex_mixed_keyed] keys(1) shape(1) ex_assign_mixed by simp
  have 3: "\<forall>m \<in> set (new_nodes 2 ex_mixed_keyed). \<exists>p. nodeKey (info m) = Some (NodeKey 2 p)"
    using saveNewNodes_pass [where H = ex_H and ver = 2 and na = ex_mixed and patha = 1
        and nb = ex_mixed_keyed] r ex_assign_mixed by simp
  have 4: "ndb_obj (fst (saveNewNodes ex_H ex_tree_mixed)) =
        ex_db\<lparr> batch := [SaveNode ex_mixed_keyed, SaveNode ex_leaf_keyed] \<rparr>"
    using saveNewNodes_pass [where H = ex_H and t = ex_tree_mixed and rt = ex_mixed
        and t' = "fst (saveNewNodes ex_H ex_tree_mixed)"] t s ex_assign_mixed n by simp
  have 5: "leftNode ex_mixed_keyed = Some ex_leaf_keyed"
    "nodeKey (info ex_leaf_keyed) = Some (NodeKey 2 2)"
    "leftNodeKey (info ex_mixed_keyed) = None"
    "rightNodeKey (info ex_mixed_keyed) = Some (NodeKey 1 3)"
    by (simp_all add: mixed_defs)
  have 6: "tree_root (fst (saveNewNodes ex_H ex_tree_mixed)) = Some (Node (info ex_mixed_keyed) None None)"
    by (simp add: ex_save_mixed)
  from 1 2 3 4 5 6 n ex_assign_mixed show ?thesis by simp
qed

text \<open>
  C4 at the first save of a tree whose store has InitialVersion 10. SaveVersion saves
  version 10: it returns 10 and the tree is at version 10 afterwards. saveNewNodes works
  with \<open>tree.version + 1\<close>, which is 1: the transient root receives the NodeKey (1, 1)
  and is written to the NodeDB under that key, so that the node written does not carry the
  version that is saved.
\<close>

theorem saveNewNodes_first_save_version:
  "Set_mt (NewMutableTree 0 ex_db_init True) (Some ''a'') (Some ''1'') = Some (ex_init_set, Inr False)
   \<and> target_version ex_init_set = 10
   \<and> int64 (tree_version ex_init_set + 1) = 1
   \<and> SaveVersion ex_Hk ex_init_set = (ex_init_saved, Some ''#a=1'', 10, None)
   \<and> tree_version ex_init_saved = 10
   \<and> node_writes (batch (ndb_obj ex_init_saved)) =
       [Node ((info (NewNode (Some ''a'') (Some ''1'')))\<lparr> nodeKey := Some (NodeKey 1 1),
          hash := Some ''#a=1'' \<rparr>) None None]
   \<and> tree_root ex_init_saved =
       Some (Node ((info (NewNode (Some ''a'') (Some ''1'')))\<lparr> nodeKey := Some (NodeKey 1 1),
          hash := Some ''#a=1'' \<rparr>) None None)"
  by (simp add: ex_init_saved_def ex_init_set_def ex_db_init_def save_defs session_defs)
section \<open>Saving an existing version and saving twice\<close>

lemma publish_simps [simp]:
  "tree_version (publish ver r t) = ver"
  "tree_root (publish ver r t) = r"
  "orphans (publish ver r t) = []"
  "lastSaved (publish ver r t) = ImmutableTree (publish ver r t)"
  "ndb_obj (publish ver r t) = ndb_obj t"
  "ndb (publish ver r t) = ndb t"
  "skipFastStorageUpgrade (publish ver r t) = skipFastStorageUpgrade t"
  "unsavedFastNodeAdditions (publish ver r t) = unsavedFastNodeAdditions t"
  "unsavedFastNodeRemovals (publish ver r t) = unsavedFastNodeRemovals t"
  by (simp_all add: publish_def Let_def)

lemma VersionExists_frame:
  assumes "VersionExists t v = (t1, ex)"
  shows "t1 = t\<lparr> versions := versions t1 \<rparr>"
  using assms by (auto simp: VersionExists_def Let_def split: if_splits option.splits)








lemma same_store_refl [simp]: "same_store db db"
  unfolding same_store_def by (rule exI [of _ "batch db"]) simp


lemma same_store_ok: "same_store db db' \<Longrightarrow> store_ok db \<Longrightarrow> store_ok db'"
  by (auto simp: same_store_def store_ok_def)














lemma it_Hash_keyed:
  "root it = Some n \<Longrightarrow> hash (info n) = Some d \<Longrightarrow> it_Hash H it = Inr (Some d)"
  by (simp add: it_Hash_def)

lemma it_Hash_null: "root it = None \<Longrightarrow> it_Hash H it = Inr None"
  by (simp add: it_Hash_def)















section \<open>Properties of the node pool\<close>

lemma np_Get_poolId_node: "poolId (info (fst (np_Get np))) = np_poolId (snd (np_Get np))"
  by (simp add: np_Get_def Let_def set_poolId_def split: prod.splits)

lemma np_Get_counter:
  "np_poolId (snd (np_Get np)) = (if np_poolId np = - 1 then 1 else np_poolId np + 1)"
  by (simp add: np_Get_def Let_def split: prod.splits)

lemma word64_succ_nonzero: "(w :: 64 word) \<noteq> - 1 \<Longrightarrow> w + 1 \<noteq> 0"
  using max_word_wrap [of w] by blast

lemma word64_succ_unat: "(w :: 64 word) \<noteq> - 1 \<Longrightarrow> unat (w + 1) = unat w + 1"
  using unatSuc [of w] word64_succ_nonzero [of w] by (simp add: add.commute)

lemma word64_unat_max: "unat (- 1 :: 64 word) = 18446744073709551615"
  by (simp add: unsigned_minus_1_eq_mask mask_eq_exp_minus_1)

lemma word64_unat_max_iff: "(unat (w :: 64 word) = 2 ^ 64 - 1) = (w = - 1)"
proof -
  have "(unat w = unat (- 1 :: 64 word)) = (w = - 1)"
    by (simp only: word_unat_eq_iff)
  then show ?thesis by (simp add: word64_unat_max)
qed

lemma np_Put_node: "set_poolId 0 (resetNode n) = zeroNode"
  by (simp add: set_poolId_def resetNode_def zeroNode_def emptyNodeKey_def)

text \<open>
  C10. Every node that NodePool.Get returns carries the pool's new counter, which is at
  least 1: the counter goes from \<open>2^64 - 1\<close> to 1 and otherwise up by one without
  wrapping, so it is never 0 after a Get. NodePool.Put hands the sync.Pool a node all of
  whose fields (node key, child keys and pointers, hash, key, value, height, size, dirty)
  are zero and whose poolId is 0.
\<close>

theorem np_Get_Put_poolId:
  "poolId (info (fst (np_Get np))) = np_poolId (snd (np_Get np))
   \<and> 1 \<le> unat (poolId (info (fst (np_Get np))))
   \<and> np_poolId (snd (np_Get np)) \<noteq> 0
   \<and> unat (np_poolId (snd (np_Get np))) =
       (if unat (np_poolId np) = 2 ^ 64 - 1 then 1 else unat (np_poolId np) + 1)
   \<and> syncPool (np_Put np n) = zeroNode # syncPool np
   \<and> np_poolId (np_Put np n) = np_poolId np"
proof -
  let ?c = "np_poolId (snd (np_Get np))"
  note max = word64_unat_max_iff [of "np_poolId np"]
  have cnt: "unat ?c = (if unat (np_poolId np) = 2 ^ 64 - 1 then 1 else unat (np_poolId np) + 1)"
    unfolding max by (simp add: np_Get_counter word64_succ_unat)
  have nz: "?c \<noteq> 0"
    by (simp add: np_Get_counter word64_succ_nonzero)
  have ge: "1 \<le> unat ?c"
    using cnt by (simp split: if_splits)
  have put: "syncPool (np_Put np n) = zeroNode # syncPool np"
    by (simp add: np_Put_def np_Put_node)
  show ?thesis
    using cnt nz ge put by (simp add: np_Get_poolId_node np_Put_def)
qed

end
